theory Spec2Isabelle
  imports Complex_Main
begin

section \<open>Values, exceptions and the outside world\<close>

text \<open>
  The two scripts (\<^verbatim>\<open>main.py\<close>, the harvest stage, and \<^verbatim>\<open>embeddeAndStore.py\<close>, the
  embedding stage) talk to four services: the OAuth endpoint, the search and abstract
  endpoints of the patent API, a MongoDB collection and an embedding/vector service.
  Their answers are inputs of the model: an environment gives, for the n-th call of each
  kind, what the call returns or raises. What the scripts do to the services (requests
  issued, documents inserted, log lines) is recorded in the state.

  Parsed JSON is a datatype. A Python dict is the association list of its items
  (\<open>map_of\<close> looks a key up). Numbers are reals: nothing here computes with them, only
  their truth value is read. Clock readings (\<^verbatim>\<open>time.time()\<close>) are reals as well: the
  rounding of IEEE doubles is not modelled.
\<close>

datatype json =
    JNull
  | JBool bool
  | JNum real
  | JStr string
  | JList "json list"
  | JObj "(string \<times> json) list"

text \<open>
  The \<^verbatim>\<open>response\<close> attribute of an exception object, as the handler of
  \<^verbatim>\<open>search_patents\<close> reads it: the attribute may not exist (\<^verbatim>\<open>hasattr\<close> is false), may be
  \<^verbatim>\<open>None\<close>, or may be a response with its content.
\<close>

datatype resp_attr = NoAttr | AttrNone | AttrResp string

text \<open>
  Exceptions (subclasses of \<^verbatim>\<open>Exception\<close>). \<open>RequestException\<close> stands for
  \<^verbatim>\<open>requests.RequestException\<close> and its subclasses; the others are not caught by
  \<^verbatim>\<open>except requests.RequestException\<close>.
\<close>

datatype exn =
    RequestException resp_attr
  | AttributeError
  | TypeError
  | KeyError
  | IndexError
  | ZeroDivisionError
  | OtherError string

record response =
  status_code :: nat
  content :: string
  body :: "exn + json"  \<comment> \<open>what \<^verbatim>\<open>response.json()\<close> returns or raises\<close>

datatype log_entry =
    ErrOAuth exn                 \<comment> \<open>"Failed to obtain OAuth token"\<close>
  | ErrFetchKeyword string exn   \<comment> \<open>"Error fetching data for keyword"\<close>
  | ErrFetchAbstract string exn  \<comment> \<open>"Error fetching abstract for patent"\<close>
  | ErrProcessing string exn     \<comment> \<open>"Error processing results for keyword"\<close>
  | ErrThread exn                \<comment> \<open>"Error in thread"\<close>
  | InfoProcessing string        \<comment> \<open>"Processing patents for keyword"\<close>
  | InfoProcessed string         \<comment> \<open>"Processed patent"\<close>

record env =
  py_str :: "json \<Rightarrow> string"           \<comment> \<open>\<^verbatim>\<open>str(v)\<close> for a value that is not a string\<close>
  url_quote :: "string \<Rightarrow> string"       \<comment> \<open>\<^verbatim>\<open>urllib.parse.quote\<close>\<close>
  time_at :: "nat \<Rightarrow> real"              \<comment> \<open>the n-th reading of \<^verbatim>\<open>time.time()\<close>\<close>
  auth_post :: "nat \<Rightarrow> exn + response"  \<comment> \<open>the n-th POST to the OAuth endpoint\<close>
  http_get :: "nat \<Rightarrow> exn + response"   \<comment> \<open>the n-th GET to the patent API\<close>
  insert_raises :: "nat \<Rightarrow> exn option"  \<comment> \<open>the n-th \<^verbatim>\<open>collection.insert_one\<close>\<close>

text \<open>
  The state: the fields of the \<^verbatim>\<open>EPOClient\<close> object (shared by every worker), and the
  trace of effects on the outside world.
\<close>

record sys =
  token :: json
  authorization :: string           \<comment> \<open>\<^verbatim>\<open>self.headers['Authorization']\<close>\<close>
  token_acquired_time :: real
  token_valid_for :: real
  clock_reads :: nat                \<comment> \<open>readings of \<^verbatim>\<open>time.time()\<close> taken so far\<close>
  auth_posts :: nat                 \<comment> \<open>POSTs issued to the OAuth endpoint\<close>
  get_requests :: "(string \<times> string) list"  \<comment> \<open>GETs issued: endpoint, Authorization header\<close>
  insert_calls :: nat               \<comment> \<open>calls of \<^verbatim>\<open>insert_one\<close>\<close>
  stored :: "json list"             \<comment> \<open>documents whose \<^verbatim>\<open>insert_one\<close> returned\<close>
  log :: "log_entry list"

subsection \<open>Python operations on parsed JSON\<close>

text \<open>\<^verbatim>\<open>d.get(k, default)\<close>: only a dict has the method.\<close>

fun py_get :: "json \<Rightarrow> string \<Rightarrow> json \<Rightarrow> exn + json" where
  "py_get (JObj kv) k d = Inr (case map_of kv k of None \<Rightarrow> d | Some v \<Rightarrow> v)"
| "py_get _ k d = Inl AttributeError"

text \<open>A chain \<^verbatim>\<open>j.get(k1, {}).get(k2, {})...\<close>, every default the empty dict.\<close>

fun get_path :: "json \<Rightarrow> string list \<Rightarrow> exn + json" where
  "get_path j [] = Inr j"
| "get_path j (k # ks) =
     (case py_get j k (JObj []) of Inl e \<Rightarrow> Inl e | Inr v \<Rightarrow> get_path v ks)"

text \<open>\<^verbatim>\<open>d[k]\<close> with a string key.\<close>

fun py_subscript :: "json \<Rightarrow> string \<Rightarrow> exn + json" where
  "py_subscript (JObj kv) k = (case map_of kv k of None \<Rightarrow> Inl KeyError | Some v \<Rightarrow> Inr v)"
| "py_subscript _ k = Inl TypeError"

text \<open>The truth value of \<^verbatim>\<open>if not v\<close>.\<close>

fun py_truthy :: "json \<Rightarrow> bool" where
  "py_truthy JNull = False"
| "py_truthy (JBool b) = b"
| "py_truthy (JNum x) = (x \<noteq> 0)"
| "py_truthy (JStr s) = (s \<noteq> [])"
| "py_truthy (JList xs) = (xs \<noteq> [])"
| "py_truthy (JObj kv) = (kv \<noteq> [])"

text \<open>
  \<^verbatim>\<open>v[:100]\<close> and the items the \<^verbatim>\<open>for\<close> loop then draws: a list gives its first hundred
  items, a string its first hundred characters; a dict or a number cannot be sliced
  (\<^verbatim>\<open>TypeError\<close>; \<^verbatim>\<open>KeyError\<close> for a dict from Python 3.12 on, both caught alike).
\<close>

fun py_slice100 :: "json \<Rightarrow> exn + json list" where
  "py_slice100 (JList xs) = Inr (take 100 xs)"
| "py_slice100 (JStr s) = Inr (map (\<lambda>c. JStr [c]) (take 100 s))"
| "py_slice100 _ = Inl TypeError"

text \<open>A value inside an f-string: a string as it is, anything else through \<^verbatim>\<open>str\<close>.\<close>

definition format_value :: "env \<Rightarrow> json \<Rightarrow> string" where
  "format_value E v = (case v of JStr s \<Rightarrow> s | _ \<Rightarrow> py_str E v)"

text \<open>\<^verbatim>\<open>response.raise_for_status()\<close>: an HTTPError carrying the response for 4xx and 5xx.\<close>

definition raise_for_status :: "response \<Rightarrow> exn + unit" where
  "raise_for_status r =
     (if 400 \<le> status_code r \<and> status_code r < 600
      then Inl (RequestException (AttrResp (content r))) else Inr ())"

section \<open>The token: \<^verbatim>\<open>get_oauth_token\<close> and \<^verbatim>\<open>EPOClient.ensure_token\<close>\<close>

text \<open>
  The three calls every request of the scripts makes in a row: the request itself,
  \<^verbatim>\<open>raise_for_status()\<close> and \<^verbatim>\<open>json()\<close>.
\<close>

definition fetch_json :: "exn + response \<Rightarrow> exn + json" where
  "fetch_json r =
     (case r of
        Inl e \<Rightarrow> Inl e
      | Inr resp \<Rightarrow> (case raise_for_status resp of Inl e \<Rightarrow> Inl e | Inr _ \<Rightarrow> body resp))"

text \<open>
  The body of the \<^verbatim>\<open>try\<close> of \<^verbatim>\<open>get_oauth_token\<close>, for the n-th POST: the request, the
  status check, the parse and \<^verbatim>\<open>data['access_token']\<close>.
\<close>

definition oauth_exchange :: "env \<Rightarrow> nat \<Rightarrow> exn + json" where
  "oauth_exchange E n =
     (case fetch_json (auth_post E n) of
        Inl e \<Rightarrow> Inl e
      | Inr data \<Rightarrow> py_subscript data ''access_token'')"

text \<open>
  \<^verbatim>\<open>get_oauth_token\<close> sends the n-th POST and handles its answer: every exception is
  caught, the error is logged and the empty string returned.
\<close>

definition oauth_receive :: "env \<Rightarrow> nat \<Rightarrow> sys \<Rightarrow> json \<times> sys" where
  "oauth_receive E n s =
     (case oauth_exchange E n of
        Inr tok \<Rightarrow> (tok, s)
      | Inl e \<Rightarrow> (JStr [], s\<lparr>log := log s @ [ErrOAuth e]\<rparr>))"

definition get_oauth_token :: "env \<Rightarrow> sys \<Rightarrow> json \<times> sys" where
  "get_oauth_token E s = oauth_receive E (auth_posts s) (s\<lparr>auth_posts := Suc (auth_posts s)\<rparr>)"

definition read_clock :: "env \<Rightarrow> sys \<Rightarrow> real \<times> sys" where
  "read_clock E s = (time_at E (clock_reads s), s\<lparr>clock_reads := Suc (clock_reads s)\<rparr>)"

definition EPOClient_init :: "env \<Rightarrow> sys \<Rightarrow> sys" where
  "EPOClient_init E s =
     (let (tok, s1) = get_oauth_token E s;
          (now, s2) = read_clock E s1
      in s2\<lparr>token := tok, token_acquired_time := now, token_valid_for := 20 * 60,
             authorization := ''Bearer '' @ format_value E tok\<rparr>)"

definition ensure_token :: "env \<Rightarrow> sys \<Rightarrow> sys" where
  "ensure_token E s =
     (let (now, s1) = read_clock E s
      in if now - token_acquired_time s1 \<ge> token_valid_for s1 - 60
         then
           let (tok, s2) = get_oauth_token E s1;
               s3 = s2\<lparr>token := tok\<rparr>;
               s4 = s3\<lparr>authorization := ''Bearer '' @ format_value E (token s3)\<rparr>;
               (now', s5) = read_clock E s4
           in s5\<lparr>token_acquired_time := now'\<rparr>
         else s1)"

section \<open>The harvest stage: \<^verbatim>\<open>search_patents\<close>, \<^verbatim>\<open>get_abstract\<close>, \<^verbatim>\<open>process_keyword\<close>\<close>

definition base_url :: string where
  "base_url = ''https://ops.epo.org/3.2/rest-services''"

text \<open>\<^verbatim>\<open>requests.get(endpoint, headers=self.headers)\<close>: the request is recorded.\<close>

definition issue_get :: "env \<Rightarrow> string \<Rightarrow> sys \<Rightarrow> (exn + response) \<times> sys" where
  "issue_get E endpoint s =
     (http_get E (length (get_requests s)),
      s\<lparr>get_requests := get_requests s @ [(endpoint, authorization s)]\<rparr>)"

text \<open>What \<^verbatim>\<open>except requests.RequestException as e\<close> catches, with \<^verbatim>\<open>e.response\<close>.\<close>

fun request_attr :: "exn \<Rightarrow> resp_attr option" where
  "request_attr (RequestException a) = Some a"
| "request_attr _ = None"

text \<open>
  \<^verbatim>\<open>search_patents\<close> returns the parsed body, or \<^verbatim>\<open>None\<close> (here \<open>JNull\<close>) after a
  RequestException. Its handler prints \<^verbatim>\<open>e.response.content\<close> whenever the exception has
  the attribute \<^verbatim>\<open>response\<close>, so an exception whose \<^verbatim>\<open>response\<close> is \<^verbatim>\<open>None\<close> raises
  AttributeError out of the handler. Any other exception is not caught.
\<close>

definition search_patents :: "env \<Rightarrow> string \<Rightarrow> sys \<Rightarrow> (exn + json) \<times> sys" where
  "search_patents E keyword s =
     (let s1 = ensure_token E s;
          endpoint = base_url @ ''/published-data/search?Range=1-100&q=''
                       @ url_quote E (''ti='' @ keyword);
          (r, s2) = issue_get E endpoint s1
      in case fetch_json r of
           Inr j \<Rightarrow> (Inr j, s2)
         | Inl e \<Rightarrow>
             (case request_attr e of
                None \<Rightarrow> (Inl e, s2)
              | Some a \<Rightarrow>
                  (let s3 = s2\<lparr>log := log s2 @ [ErrFetchKeyword keyword e]\<rparr>
                   in case a of
                        AttrNone \<Rightarrow> (Inl AttributeError, s3)
                      | _ \<Rightarrow> (Inr JNull, s3))))"

definition abstract_record :: "string \<Rightarrow> json \<Rightarrow> json" where
  "abstract_record patent_number a = JObj [(''patentNumber'', JStr patent_number), (''abstract'', a)]"

definition extract_abstract :: "json \<Rightarrow> exn + json" where
  "extract_abstract data =
     (case get_path data [''ops:world-patent-data'', ''exchange-documents'',
                          ''exchange-document'', ''abstract'', ''p''] of
        Inl e \<Rightarrow> Inl e
      | Inr p \<Rightarrow> py_get p ''$'' (JStr ''No abstract available''))"

definition get_abstract :: "env \<Rightarrow> string \<Rightarrow> json \<Rightarrow> sys \<Rightarrow> (exn + json) \<times> sys" where
  "get_abstract E patent_number patent_type s =
     (let s1 = ensure_token E s;
          endpoint = base_url @ ''/published-data/publication/'' @ format_value E patent_type
                       @ ''/'' @ patent_number @ ''/abstract'';
          (r, s2) = issue_get E endpoint s1
      in case (case fetch_json r of Inl e \<Rightarrow> Inl e | Inr data \<Rightarrow> extract_abstract data) of
           Inr a \<Rightarrow> (Inr (abstract_record patent_number a), s2)
         | Inl e \<Rightarrow>
             (case request_attr e of
                None \<Rightarrow> (Inl e, s2)
              | Some _ \<Rightarrow>
                  (Inr (abstract_record patent_number (JStr ''Abstract fetch failed'')),
                   s2\<lparr>log := log s2 @ [ErrFetchAbstract patent_number e]\<rparr>)))"

text \<open>\<^verbatim>\<open>collection.insert_one(doc)\<close>: the n-th call raises or stores the document.\<close>

definition insert_one :: "env \<Rightarrow> json \<Rightarrow> sys \<Rightarrow> (exn + unit) \<times> sys" where
  "insert_one E doc s =
     (let n = insert_calls s;
          s1 = s\<lparr>insert_calls := Suc n\<rparr>
      in case insert_raises E n of
           Some e \<Rightarrow> (Inl e, s1)
         | None \<Rightarrow> (Inr (), s1\<lparr>stored := stored s1 @ [doc]\<rparr>))"

text \<open>\<^verbatim>\<open>doc_id.get(k, {}).get("$", "")\<close>\<close>

definition dollar_of :: "json \<Rightarrow> string \<Rightarrow> exn + json" where
  "dollar_of doc_id k =
     (case py_get doc_id k (JObj []) of
        Inl e \<Rightarrow> Inl e
      | Inr f \<Rightarrow> py_get f ''$'' (JStr []))"

text \<open>
  The first lines of the loop body of \<^verbatim>\<open>process_keyword\<close>: \<^verbatim>\<open>patent_number\<close> and
  \<^verbatim>\<open>patent_type\<close> of one matched reference.
\<close>

definition document_id_parts :: "env \<Rightarrow> json \<Rightarrow> exn + (string \<times> json)" where
  "document_id_parts E doc =
     (case py_get doc ''document-id'' (JObj []) of
        Inl e \<Rightarrow> Inl e
      | Inr doc_id \<Rightarrow>
     (case dollar_of doc_id ''country'' of
        Inl e \<Rightarrow> Inl e
      | Inr country \<Rightarrow>
     (case dollar_of doc_id ''doc-number'' of
        Inl e \<Rightarrow> Inl e
      | Inr number \<Rightarrow>
     (case dollar_of doc_id ''kind'' of
        Inl e \<Rightarrow> Inl e
      | Inr kind \<Rightarrow>
          (let patent_number = format_value E country @ format_value E number
                                 @ format_value E kind
           in case py_get doc_id ''@document-id-type'' (JStr []) of
                Inl e \<Rightarrow> Inl e
              | Inr patent_type \<Rightarrow> Inr (patent_number, patent_type))))))"

text \<open>One turn of the loop, and the loop: an exception leaves it.\<close>

definition process_doc :: "env \<Rightarrow> json \<Rightarrow> sys \<Rightarrow> (exn + unit) \<times> sys" where
  "process_doc E doc s =
     (case document_id_parts E doc of
        Inl e \<Rightarrow> (Inl e, s)
      | Inr (patent_number, patent_type) \<Rightarrow>
          (case get_abstract E patent_number patent_type s of
             (Inl e, s1) \<Rightarrow> (Inl e, s1)
           | (Inr abstract_data, s1) \<Rightarrow>
               (case insert_one E abstract_data s1 of
                  (Inl e, s2) \<Rightarrow> (Inl e, s2)
                | (Inr _, s2) \<Rightarrow> (Inr (), s2\<lparr>log := log s2 @ [InfoProcessed patent_number]\<rparr>))))"

fun process_docs :: "env \<Rightarrow> json list \<Rightarrow> sys \<Rightarrow> (exn + unit) \<times> sys" where
  "process_docs E [] s = (Inr (), s)"
| "process_docs E (doc # docs) s =
     (case process_doc E doc s of
        (Inl e, s1) \<Rightarrow> (Inl e, s1)
      | (Inr _, s1) \<Rightarrow> process_docs E docs s1)"

text \<open>The body of the \<^verbatim>\<open>try\<close> of \<^verbatim>\<open>process_keyword\<close>.\<close>

definition keyword_body :: "env \<Rightarrow> string \<Rightarrow> json \<Rightarrow> sys \<Rightarrow> (exn + unit) \<times> sys" where
  "keyword_body E keyword results s =
     (case (case get_path results [''ops:world-patent-data'', ''ops:biblio-search'',
                                   ''ops:search-result''] of
              Inl e \<Rightarrow> Inl e
            | Inr r \<Rightarrow> py_get r ''ops:publication-reference'' (JList [])) of
        Inl e \<Rightarrow> (Inl e, s)
      | Inr patent_docs \<Rightarrow>
          if \<not> py_truthy patent_docs then (Inr (), s)
          else
            (let s1 = s\<lparr>log := log s @ [InfoProcessing keyword]\<rparr>
             in case py_slice100 patent_docs of
                  Inl e \<Rightarrow> (Inl e, s1)
                | Inr docs \<Rightarrow> process_docs E docs s1))"

text \<open>
  \<^verbatim>\<open>process_keyword\<close>: the search is outside the \<^verbatim>\<open>try\<close>, so what it raises leaves the
  function; what the body raises is logged. The function returns \<^verbatim>\<open>None\<close> on every path
  that returns.
\<close>

definition process_keyword :: "env \<Rightarrow> string \<Rightarrow> sys \<Rightarrow> (exn + unit) \<times> sys" where
  "process_keyword E keyword s =
     (case search_patents E keyword s of
        (Inl e, s1) \<Rightarrow> (Inl e, s1)
      | (Inr results, s1) \<Rightarrow>
          if \<not> py_truthy results then (Inr (), s1)
          else
            (case keyword_body E keyword results s1 of
               (Inl e, s2) \<Rightarrow> (Inr (), s2\<lparr>log := log s2 @ [ErrProcessing keyword e]\<rparr>)
             | (Inr _, s2) \<Rightarrow> (Inr (), s2)))"

section \<open>The thread pool of both scripts\<close>

text \<open>
  \<^verbatim>\<open>executor.submit(f, x)\<close> for every item gives one future per item; a future holds what
  the call returned or the exception it raised. The workers are run here one after the
  other in the order of submission, each on the state the one before left: the
  interleaving of the threads is not modelled.
\<close>

fun submit_all :: "('i \<Rightarrow> 's \<Rightarrow> (exn + unit) \<times> 's) \<Rightarrow> 'i list \<Rightarrow> 's \<Rightarrow> (exn + unit) list \<times> 's" where
  "submit_all f [] s = ([], s)"
| "submit_all f (x # xs) s =
     (let (r, s1) = f x s;
          (rs, s2) = submit_all f xs s1
      in (r # rs, s2))"

text \<open>
  The loop of \<^verbatim>\<open>main\<close> in \<^verbatim>\<open>main.py\<close> over the completed futures:
  \<^verbatim>\<open>if future.exception(): logging.error(...)\<close>.
\<close>

fun log_exceptions :: "(exn + unit) list \<Rightarrow> sys \<Rightarrow> sys" where
  "log_exceptions [] s = s"
| "log_exceptions (f # fs) s =
     log_exceptions fs (case f of Inl e \<Rightarrow> s\<lparr>log := log s @ [ErrThread e]\<rparr> | Inr _ \<Rightarrow> s)"

text \<open>
  \<^verbatim>\<open>main\<close> of \<^verbatim>\<open>main.py\<close>, given the keywords read from the file: the futures, what the
  function returns or raises, and the final state.
\<close>

definition harvest_main :: "env \<Rightarrow> string list \<Rightarrow> sys \<Rightarrow> (exn + unit) list \<times> (exn + unit) \<times> sys" where
  "harvest_main E keywords s =
     (let epo_client = EPOClient_init E s;
          (futures, s1) = submit_all (process_keyword E) keywords epo_client
      in (futures, Inr (), log_exceptions futures s1))"

section \<open>The embedding stage: \<^verbatim>\<open>embeddeAndStore.py\<close>\<close>

text \<open>
  The n-th call of \<^verbatim>\<open>client.embeddings.create\<close> raises or returns a response, of which
  the code reads \<^verbatim>\<open>response.data[0].embedding\<close>: the response is the list of the
  embeddings of its data. The n-th insert into the vector index raises or returns a
  response, of which the code reads \<^verbatim>\<open>response.get('success', False)\<close>.
\<close>

record eenv =
  embeddings_create :: "nat \<Rightarrow> exn + real list list"
  vectorize_insert :: "nat \<Rightarrow> exn + json"

datatype elog_entry =
    InfoEmbedding json        \<comment> \<open>"Embedding abstract for patent"\<close>
  | InfoEmbedded json         \<comment> \<open>"Successfully embedded abstract for patent"\<close>
  | ErrEmbedding json exn     \<comment> \<open>"Error embedding abstract for patent"\<close>
  | InfoStored json           \<comment> \<open>"Successfully stored embedding for patent"\<close>
  | ErrNotStored json         \<comment> \<open>"Failed to store embedding for patent"\<close>
  | ErrStoring json exn       \<comment> \<open>"Error storing embedding for patent"\<close>
  | ErrNoAbstracts            \<comment> \<open>"No abstracts found in MongoDB. Exiting."\<close>
  | ErrWorker exn             \<comment> \<open>"Error in thread"\<close>

record esys =
  embed_calls :: "json list"                  \<comment> \<open>inputs passed to \<^verbatim>\<open>embeddings.create\<close>\<close>
  vector_inserts :: "(json \<times> real list) list"  \<comment> \<open>id and values of every insert issued\<close>
  elog :: "elog_entry list"

text \<open>The dict \<^verbatim>\<open>embed_abstract\<close> returns: two keys, so it is never empty.\<close>

record embedded =
  emb_patentNumber :: json
  emb_embedding :: "real list"

text \<open>The body of the \<^verbatim>\<open>try\<close> of \<^verbatim>\<open>embed_abstract\<close>.\<close>

definition embed_try :: "eenv \<Rightarrow> json \<Rightarrow> esys \<Rightarrow> (exn + embedded) \<times> esys" where
  "embed_try E abstract s =
     (case py_subscript abstract ''patentNumber'' of
        Inl e \<Rightarrow> (Inl e, s)
      | Inr pn \<Rightarrow>
          (let s1 = s\<lparr>elog := elog s @ [InfoEmbedding pn]\<rparr>
           in case py_subscript abstract ''abstract'' of
                Inl e \<Rightarrow> (Inl e, s1)
              | Inr input \<Rightarrow>
                  (let n = length (embed_calls s1);
                       s2 = s1\<lparr>embed_calls := embed_calls s1 @ [input]\<rparr>
                   in case embeddings_create E n of
                        Inl e \<Rightarrow> (Inl e, s2)
                      | Inr data \<Rightarrow>
                          (case data of
                             [] \<Rightarrow> (Inl IndexError, s2)
                           | embedding # _ \<Rightarrow>
                               (Inr \<lparr>emb_patentNumber = pn, emb_embedding = embedding\<rparr>,
                                s2\<lparr>elog := elog s2 @ [InfoEmbedded pn]\<rparr>)))))"

text \<open>
  \<^verbatim>\<open>embed_abstract\<close>: the handler catches every exception, logs it with
  \<^verbatim>\<open>abstract['patentNumber']\<close> (a KeyError here leaves the function) and returns \<^verbatim>\<open>None\<close>.
\<close>

definition embed_abstract :: "eenv \<Rightarrow> json \<Rightarrow> esys \<Rightarrow> (exn + embedded option) \<times> esys" where
  "embed_abstract E abstract s =
     (case embed_try E abstract s of
        (Inr r, s1) \<Rightarrow> (Inr (Some r), s1)
      | (Inl e, s1) \<Rightarrow>
          (case py_subscript abstract ''patentNumber'' of
             Inl e' \<Rightarrow> (Inl e', s1)
           | Inr pn \<Rightarrow> (Inr None, s1\<lparr>elog := elog s1 @ [ErrEmbedding pn e]\<rparr>)))"

definition store_embedding_in_cloudflare :: "eenv \<Rightarrow> embedded \<Rightarrow> esys \<Rightarrow> bool \<times> esys" where
  "store_embedding_in_cloudflare E embedded_abstract s =
     (let pn = emb_patentNumber embedded_abstract;
          n = length (vector_inserts s);
          s1 = s\<lparr>vector_inserts := vector_inserts s @ [(pn, emb_embedding embedded_abstract)]\<rparr>
      in case (case vectorize_insert E n of
                 Inl e \<Rightarrow> Inl e
               | Inr resp \<Rightarrow> py_get resp ''success'' (JBool False)) of
           Inl e \<Rightarrow> (False, s1\<lparr>elog := elog s1 @ [ErrStoring pn e]\<rparr>)
         | Inr ok \<Rightarrow>
             if py_truthy ok then (True, s1\<lparr>elog := elog s1 @ [InfoStored pn]\<rparr>)
             else (False, s1\<lparr>elog := elog s1 @ [ErrNotStored pn]\<rparr>))"

definition process_abstract :: "eenv \<Rightarrow> json \<Rightarrow> esys \<Rightarrow> (exn + unit) \<times> esys" where
  "process_abstract E abstract s =
     (case embed_abstract E abstract s of
        (Inl e, s1) \<Rightarrow> (Inl e, s1)
      | (Inr None, s1) \<Rightarrow> (Inr (), s1)
      | (Inr (Some embedded_abstract), s1) \<Rightarrow>
          (Inr (), snd (store_embedding_in_cloudflare E embedded_abstract s1)))"

text \<open>
  The loop of \<^verbatim>\<open>main\<close> in \<^verbatim>\<open>embeddeAndStore.py\<close> over the completed futures:
  \<^verbatim>\<open>future.result()\<close> raises what the call raised, and the \<^verbatim>\<open>except Exception\<close> around it
  logs.
\<close>

fun log_results :: "(exn + unit) list \<Rightarrow> esys \<Rightarrow> esys" where
  "log_results [] s = s"
| "log_results (f # fs) s =
     log_results fs (case f of Inl e \<Rightarrow> s\<lparr>elog := elog s @ [ErrWorker e]\<rparr> | Inr _ \<Rightarrow> s)"

text \<open>\<^verbatim>\<open>main\<close> of \<^verbatim>\<open>embeddeAndStore.py\<close>, given the abstracts fetched from MongoDB.\<close>

definition embed_main :: "eenv \<Rightarrow> json list \<Rightarrow> esys \<Rightarrow> (exn + unit) list \<times> (exn + unit) \<times> esys" where
  "embed_main E abstracts s =
     (if abstracts = [] then ([], Inr (), s\<lparr>elog := elog s @ [ErrNoAbstracts]\<rparr>)
      else
        (let (futures, s1) = submit_all (process_abstract E) abstracts s
         in (futures, Inr (), log_results futures s1)))"

section \<open>The rate limiter: \<^verbatim>\<open>RateLimiter\<close>\<close>






section \<open>Workers inside \<^verbatim>\<open>ensure_token\<close> at the same time\<close>

text \<open>
  Every worker thread calls \<^verbatim>\<open>ensure_token\<close> on the one shared client, and the method
  takes no lock. A worker is at one of the statements of the method: before the test of
  line 74, inside the POST of \<^verbatim>\<open>get_oauth_token\<close> (a refresh request in flight, the n-th
  one), before the assignment of the header, before the assignment of the timestamp, or
  past the method. A schedule names the worker that runs its next statement.
\<close>

datatype pc = AtCheck | InFlight nat | AtHeader | AtStamp | Finished

record pool =
  shared :: sys
  pcs :: "pc list"

definition worker_step :: "env \<Rightarrow> nat \<Rightarrow> pool \<Rightarrow> pool" where
  "worker_step E i p =
     (if i < length (pcs p) then
        (case pcs p ! i of
           AtCheck \<Rightarrow>
             (let (now, s1) = read_clock E (shared p)
              in if now - token_acquired_time s1 \<ge> token_valid_for s1 - 60
                 then p\<lparr>shared := s1\<lparr>auth_posts := Suc (auth_posts s1)\<rparr>,
                        pcs := (pcs p)[i := InFlight (auth_posts s1)]\<rparr>
                 else p\<lparr>shared := s1, pcs := (pcs p)[i := Finished]\<rparr>)
         | InFlight n \<Rightarrow>
             (let (tok, s1) = oauth_receive E n (shared p)
              in p\<lparr>shared := s1\<lparr>token := tok\<rparr>, pcs := (pcs p)[i := AtHeader]\<rparr>)
         | AtHeader \<Rightarrow>
             p\<lparr>shared := (shared p)\<lparr>authorization :=
                                       ''Bearer '' @ format_value E (token (shared p))\<rparr>,
               pcs := (pcs p)[i := AtStamp]\<rparr>
         | AtStamp \<Rightarrow>
             (let (now', s1) = read_clock E (shared p)
              in p\<lparr>shared := s1\<lparr>token_acquired_time := now'\<rparr>,
                   pcs := (pcs p)[i := Finished]\<rparr>)
         | Finished \<Rightarrow> p)
      else p)"

fun run_schedule :: "env \<Rightarrow> nat list \<Rightarrow> pool \<Rightarrow> pool" where
  "run_schedule E [] p = p"
| "run_schedule E (i # sched) p = run_schedule E sched (worker_step E i p)"

fun is_in_flight :: "pc \<Rightarrow> bool" where
  "is_in_flight (InFlight n) = True"
| "is_in_flight _ = False"

definition in_flight :: "pool \<Rightarrow> nat" where
  "in_flight p = length (filter is_in_flight (pcs p))"

definition at_check :: "pool \<Rightarrow> nat" where
  "at_check p = length (filter (\<lambda>c. c = AtCheck) (pcs p))"

section \<open>What the specification says, in the terms of the code\<close>

text \<open>
  The identifier of a matched reference, in the words of the specification: a field of
  the \<^verbatim>\<open>document-id\<close> as the API returned it (the value under \<^verbatim>\<open>$\<close>), the empty string
  when the field is missing. A field that is there is a dict, as the API sends it.
\<close>

definition api_field :: "env \<Rightarrow> (string \<times> json) list \<Rightarrow> string \<Rightarrow> string" where
  "api_field E doc_id k =
     (case map_of doc_id k of
        None \<Rightarrow> []
      | Some f \<Rightarrow>
          (case f of
             JObj kv \<Rightarrow> (case map_of kv ''$'' of None \<Rightarrow> [] | Some v \<Rightarrow> format_value E v)
           | _ \<Rightarrow> []))"

fun is_dict :: "json \<Rightarrow> bool" where
  "is_dict (JObj kv) = True"
| "is_dict _ = False"

definition fields_are_dicts :: "(string \<times> json) list \<Rightarrow> bool" where
  "fields_are_dicts doc_id =
     list_all (\<lambda>k. case map_of doc_id k of None \<Rightarrow> True | Some f \<Rightarrow> is_dict f)
       [''country'', ''doc-number'', ''kind'']"

text \<open>The \<^verbatim>\<open>document-id\<close> of a reference: a dict, or missing (then the empty dict).\<close>

definition reference_id :: "(string \<times> json) list \<Rightarrow> (string \<times> json) list option" where
  "reference_id doc =
     (case map_of doc ''document-id'' of
        None \<Rightarrow> Some []
      | Some (JObj doc_id) \<Rightarrow> Some doc_id
      | Some _ \<Rightarrow> None)"

text \<open>
  What the detail fetch issued from state \<open>s\<close> gives: the answer to the next GET, checked,
  parsed and searched for the abstract.
\<close>

definition fetched_abstract :: "env \<Rightarrow> sys \<Rightarrow> exn + json" where
  "fetched_abstract E s =
     (case fetch_json (http_get E (length (get_requests s))) of
        Inl e \<Rightarrow> Inl e
      | Inr data \<Rightarrow> extract_abstract data)"

text \<open>The exceptions the futures of a run hold, in order.\<close>

fun raised :: "(exn + unit) list \<Rightarrow> exn list" where
  "raised [] = []"
| "raised (Inl e # fs) = e # raised fs"
| "raised (Inr u # fs) = raised fs"

section \<open>Concrete inputs\<close>

text \<open>
  Environments and states on which the theorems below are run: a client holding the token
  \<open>T1\<close> acquired at time 0 and valid for 1200 seconds, a clock that starts at a given time
  and advances by one second per reading, an OAuth endpoint that answers with the token
  \<open>T2\<close>, and a patent API that answers every request with status 500.
\<close>

definition ok_response :: "json \<Rightarrow> response" where
  "ok_response j = \<lparr>status_code = 200, content = [], body = Inr j\<rparr>"

definition status_response :: "nat \<Rightarrow> response" where
  "status_response n =
     \<lparr>status_code = n, content = ''error'', body = Inl (OtherError ''not JSON'')\<rparr>"

definition demo_env :: "real \<Rightarrow> env" where
  "demo_env t =
     \<lparr>py_str = (\<lambda>_. ''<value>''),
      url_quote = (\<lambda>q. q),
      time_at = (\<lambda>n. t + real n),
      auth_post = (\<lambda>_. Inr (ok_response (JObj [(''access_token'', JStr ''T2'')]))),
      http_get = (\<lambda>_. Inr (status_response 500)),
      insert_raises = (\<lambda>_. None)\<rparr>"

definition demo_client :: sys where
  "demo_client =
     \<lparr>token = JStr ''T1'', authorization = ''Bearer T1'', token_acquired_time = 0,
      token_valid_for = 1200, clock_reads = 0, auth_posts = 1, get_requests = [],
      insert_calls = 0, stored = [], log = []\<rparr>"

text \<open>The same, with an OAuth endpoint that cannot be reached.\<close>

definition failing_auth_env :: env where
  "failing_auth_env = (demo_env 1145)\<lparr>auth_post := (\<lambda>_. Inl (RequestException AttrNone))\<rparr>"

text \<open>
  Answers of the patent API: a search result with the given references, a reference with
  the given fields, the body of an abstract, and the environment that gives the listed
  answers to the first GETs (status 500 to every later one). The clock starts at 0, so
  the token of \<open>demo_client\<close> is not due.
\<close>

definition search_result :: "json list \<Rightarrow> json" where
  "search_result refs =
     JObj [(''ops:world-patent-data'',
       JObj [(''ops:biblio-search'',
         JObj [(''ops:search-result'',
           JObj [(''ops:publication-reference'', JList refs)])])])]"

definition reference :: "(string \<times> string) list \<Rightarrow> json" where
  "reference parts =
     JObj [(''@system'', JStr ''ops.epo.org''),
           (''document-id'',
              JObj ((''@document-id-type'', JStr ''docdb'')
                    # map (\<lambda>(k, v). (k, JObj [(''$'', JStr v)])) parts))]"

definition abstract_body :: "string \<Rightarrow> json" where
  "abstract_body txt =
     JObj [(''ops:world-patent-data'',
       JObj [(''exchange-documents'',
         JObj [(''exchange-document'',
           JObj [(''abstract'', JObj [(''p'', JObj [(''$'', JStr txt)])])])])])]"

definition harvest_env :: "(exn + response) list \<Rightarrow> env" where
  "harvest_env answers =
     (demo_env 0)\<lparr>http_get := (\<lambda>n. if n < length answers then answers ! n
                                   else Inr (status_response 500))\<rparr>"

text \<open>A matched reference with a country and a document number, and no kind code.\<close>

definition demo_reference :: "(string \<times> json) list" where
  "demo_reference =
     [(''document-id'', JObj [(''@document-id-type'', JStr ''docdb''),
                             (''country'', JObj [(''$'', JStr ''EP'')]),
                             (''doc-number'', JObj [(''$'', JStr ''1000000'')])])]"

text \<open>
  Two matched references, and a patent API that answers the first detail fetch with status
  500 and the second with an abstract.
\<close>

definition two_references :: "json list" where
  "two_references =
     [reference [(''country'', ''EP''), (''doc-number'', ''1''), (''kind'', ''A1'')],
      reference [(''country'', ''EP''), (''doc-number'', ''2''), (''kind'', ''B1'')]]"

definition flaky_env :: env where
  "flaky_env =
     harvest_env [Inr (status_response 500), Inr (ok_response (abstract_body ''A battery.''))]"






text \<open>A body that is not JSON, with the exception \<^verbatim>\<open>json()\<close> raises for it.\<close>

definition html_response :: response where
  "html_response =
     \<lparr>status_code = 200, content = ''<html>'', body = Inl (RequestException AttrNone)\<rparr>"

text \<open>A patent API that cannot be reached for the first request.\<close>

definition crash_env :: env where
  "crash_env = harvest_env [Inl (RequestException AttrNone)]"

text \<open>
  The embedding stage: a record as the harvest stage stores it, an embedding service that
  raises, one that answers with a vector, and the state before any call.
\<close>

definition demo_abstract :: json where
  "demo_abstract = JObj [(''patentNumber'', JStr ''EP1A1''), (''abstract'', JStr ''A battery.'')]"

definition failing_embed_env :: eenv where
  "failing_embed_env =
     \<lparr>embeddings_create = (\<lambda>n. Inl (OtherError ''rate limit'')),
      vectorize_insert = (\<lambda>n. Inr (JObj [(''success'', JBool True)]))\<rparr>"

definition working_embed_env :: eenv where
  "working_embed_env = failing_embed_env\<lparr>embeddings_create := (\<lambda>n. Inr [[1 / 2, 1 / 4]])\<rparr>"

definition empty_esys :: esys where
  "empty_esys = \<lparr>embed_calls = [], vector_inserts = [], elog = []\<rparr>"






text \<open>Two workers that enter \<^verbatim>\<open>ensure_token\<close> on the client of above.\<close>

definition two_workers :: pool where
  "two_workers = \<lparr>shared = demo_client, pcs = [AtCheck, AtCheck]\<rparr>"

section \<open>The token is refreshed one minute before it expires\<close>

lemma get_oauth_token_result:
  "fst (get_oauth_token E s) =
     (case oauth_exchange E (auth_posts s) of Inr tok \<Rightarrow> tok | Inl e \<Rightarrow> JStr [])"
  by (simp add: get_oauth_token_def oauth_receive_def split: sum.splits)

lemma ensure_token_due:
  assumes "time_at E (clock_reads s) - token_acquired_time s \<ge> token_valid_for s - 60"
  shows "auth_posts (ensure_token E s) = Suc (auth_posts s)"
    and "token (ensure_token E s) =
           (case oauth_exchange E (auth_posts s) of Inr tok \<Rightarrow> tok | Inl e \<Rightarrow> JStr [])"
    and "authorization (ensure_token E s) =
           ''Bearer '' @ format_value E (token (ensure_token E s))"
    and "token_acquired_time (ensure_token E s) = time_at E (Suc (clock_reads s))"
  using assms
  by (simp_all add: ensure_token_def read_clock_def get_oauth_token_def oauth_receive_def
      split: sum.splits prod.splits)

lemma ensure_token_not_due:
  assumes "\<not> time_at E (clock_reads s) - token_acquired_time s \<ge> token_valid_for s - 60"
  shows "ensure_token E s = s\<lparr>clock_reads := Suc (clock_reads s)\<rparr>"
  using assms by (simp add: ensure_token_def read_clock_def)

lemma search_patents_header:
  "snd (last (get_requests (snd (search_patents E keyword s)))) =
     authorization (ensure_token E s)"
  by (simp add: search_patents_def issue_get_def Let_def
      split: sum.splits option.splits resp_attr.splits)

lemma get_abstract_header:
  "snd (last (get_requests (snd (get_abstract E pn pt s)))) = authorization (ensure_token E s)"
  by (simp add: get_abstract_def issue_get_def Let_def
      split: sum.splits option.splits resp_attr.splits)

text \<open>
  Claim C2. A call of \<^verbatim>\<open>ensure_token\<close> reads the clock; when the time elapsed since the
  token was acquired is at least the validity minus 60 seconds, it sends exactly one
  request to the OAuth endpoint, takes the token that \<^verbatim>\<open>get_oauth_token\<close> returns, rebuilds
  the Authorization header from it and sets the acquisition time to a new reading of the
  clock; otherwise it sends no request and leaves token, header and acquisition time as
  they were. With the validity of 1200 seconds that the constructor sets, a call 1145
  seconds after the acquisition refreshes and a call 1000 seconds after it does not. Both
  callers, \<^verbatim>\<open>search_patents\<close> and \<^verbatim>\<open>get_abstract\<close>, send their request with the header
  that \<^verbatim>\<open>ensure_token\<close> left, so the refresh comes before the token is used.
\<close>

theorem ensure_token_refresh_policy:
  "(time_at E (clock_reads s) - token_acquired_time s \<ge> token_valid_for s - 60 \<longrightarrow>
      auth_posts (ensure_token E s) = auth_posts s + 1
    \<and> token (ensure_token E s) =
        fst (get_oauth_token E (s\<lparr>clock_reads := Suc (clock_reads s)\<rparr>))
    \<and> authorization (ensure_token E s) =
        ''Bearer '' @ format_value E (token (ensure_token E s))
    \<and> token_acquired_time (ensure_token E s) = time_at E (Suc (clock_reads s)))
   \<and> (time_at E (clock_reads s) - token_acquired_time s < token_valid_for s - 60 \<longrightarrow>
      auth_posts (ensure_token E s) = auth_posts s
    \<and> token (ensure_token E s) = token s
    \<and> authorization (ensure_token E s) = authorization s
    \<and> token_acquired_time (ensure_token E s) = token_acquired_time s)
   \<and> (token_valid_for s = 1200
        \<and> time_at E (clock_reads s) - token_acquired_time s = 1145 \<longrightarrow>
      auth_posts (ensure_token E s) = auth_posts s + 1)
   \<and> (token_valid_for s = 1200
        \<and> time_at E (clock_reads s) - token_acquired_time s = 1000 \<longrightarrow>
      auth_posts (ensure_token E s) = auth_posts s \<and> token (ensure_token E s) = token s)
   \<and> token_valid_for (EPOClient_init E s) = 1200
   \<and> snd (last (get_requests (snd (search_patents E keyword s)))) =
       authorization (ensure_token E s)
   \<and> snd (last (get_requests (snd (get_abstract E pn pt s)))) =
       authorization (ensure_token E s)"
proof -
  have due: "auth_posts (ensure_token E s) = auth_posts s + 1
    \<and> token (ensure_token E s) =
        fst (get_oauth_token E (s\<lparr>clock_reads := Suc (clock_reads s)\<rparr>))
    \<and> authorization (ensure_token E s) =
        ''Bearer '' @ format_value E (token (ensure_token E s))
    \<and> token_acquired_time (ensure_token E s) = time_at E (Suc (clock_reads s))"
    if "time_at E (clock_reads s) - token_acquired_time s \<ge> token_valid_for s - 60"
    using ensure_token_due [OF that] by (simp add: get_oauth_token_result)
  have fresh: "ensure_token E s = s\<lparr>clock_reads := Suc (clock_reads s)\<rparr>"
    if "time_at E (clock_reads s) - token_acquired_time s < token_valid_for s - 60"
    using that by (intro ensure_token_not_due) simp
  have init: "token_valid_for (EPOClient_init E s) = 1200"
    by (simp add: EPOClient_init_def read_clock_def split: prod.splits)
  show ?thesis
    using due fresh init search_patents_header [of E keyword s]
      get_abstract_header [of E pn pt s]
    by auto
qed

theorem ensure_token_refresh_policy_witness:
  "auth_posts (ensure_token (demo_env 1145) demo_client) = auth_posts demo_client + 1
   \<and> token_acquired_time (ensure_token (demo_env 1145) demo_client) = 1146
   \<and> auth_posts (ensure_token (demo_env 1000) demo_client) = auth_posts demo_client
   \<and> token (ensure_token (demo_env 1000) demo_client) = JStr ''T1''"
  using ensure_token_refresh_policy [where E = "demo_env 1145" and s = demo_client]
        ensure_token_refresh_policy [where E = "demo_env 1000" and s = demo_client]
  by (simp add: demo_env_def demo_client_def)

section \<open>A failed refresh\<close>

text \<open>
  Claim C4, as amended. \<^verbatim>\<open>get_oauth_token\<close> returns the empty string when the exchange with
  the OAuth endpoint raises, and \<^verbatim>\<open>ensure_token\<close> assigns what it returns: after a refresh
  that was due and failed, the token is the empty string and the Authorization header is
  \<open>Bearer\<close> followed by a space and nothing else; the error is logged and the acquisition
  time is set to the new reading of the clock. The token held before is not kept.
\<close>

theorem failed_refresh_replaces_token:
  assumes "time_at E (clock_reads s) - token_acquired_time s \<ge> token_valid_for s - 60"
    and "oauth_exchange E (auth_posts s) = Inl e"
  shows "fst (get_oauth_token E (s\<lparr>clock_reads := Suc (clock_reads s)\<rparr>)) = JStr []
     \<and> token (ensure_token E s) = JStr []
     \<and> authorization (ensure_token E s) = ''Bearer ''
     \<and> log (ensure_token E s) = log s @ [ErrOAuth e]
     \<and> token_acquired_time (ensure_token E s) = time_at E (Suc (clock_reads s))"
  using assms
  by (simp add: ensure_token_def read_clock_def get_oauth_token_def oauth_receive_def
      format_value_def)

theorem failed_refresh_replaces_token_witness:
  "token (ensure_token failing_auth_env demo_client) = JStr []
   \<and> authorization (ensure_token failing_auth_env demo_client) = ''Bearer ''
   \<and> log (ensure_token failing_auth_env demo_client) = [ErrOAuth (RequestException AttrNone)]
   \<and> token_acquired_time (ensure_token failing_auth_env demo_client) = 1146"
  using failed_refresh_replaces_token
    [where E = failing_auth_env and s = demo_client and e = "RequestException AttrNone"]
  by (simp add: failing_auth_env_def demo_env_def demo_client_def oauth_exchange_def
      fetch_json_def)

text \<open>
  Claim C4 as the specification states it (the last valid token and header are retained)
  fails on a client that holds \<open>T1\<close> when the OAuth endpoint cannot be reached.
\<close>

theorem failed_refresh_keeps_token_counterexample:
  "token demo_client = JStr ''T1''
   \<and> authorization demo_client = ''Bearer T1''
   \<and> oauth_exchange failing_auth_env (auth_posts demo_client) = Inl (RequestException AttrNone)
   \<and> token (ensure_token failing_auth_env demo_client) = JStr []
   \<and> authorization (ensure_token failing_auth_env demo_client) = ''Bearer ''"
  by (simp add: failing_auth_env_def demo_env_def demo_client_def ensure_token_def
      read_clock_def get_oauth_token_def oauth_receive_def oauth_exchange_def fetch_json_def
      format_value_def)

section \<open>What a keyword stores\<close>

lemma ensure_token_keeps:
  "stored (ensure_token E s) = stored s"
  "insert_calls (ensure_token E s) = insert_calls s"
  "get_requests (ensure_token E s) = get_requests s"
  by (simp_all add: ensure_token_def read_clock_def get_oauth_token_def oauth_receive_def
      split: sum.splits prod.splits)

lemma search_patents_keeps:
  "stored (snd (search_patents E kw s)) = stored s"
  "insert_calls (snd (search_patents E kw s)) = insert_calls s"
  "length (get_requests (snd (search_patents E kw s))) = Suc (length (get_requests s))"
  by (simp_all add: search_patents_def issue_get_def Let_def ensure_token_keeps
      split: sum.splits option.splits resp_attr.splits)

lemma get_abstract_keeps:
  "stored (snd (get_abstract E pn pt s)) = stored s"
  "insert_calls (snd (get_abstract E pn pt s)) = insert_calls s"
  "length (get_requests (snd (get_abstract E pn pt s))) = Suc (length (get_requests s))"
  by (simp_all add: get_abstract_def issue_get_def Let_def ensure_token_keeps
      split: sum.splits option.splits)

lemma get_abstract_result:
  "fst (get_abstract E pn pt s) =
     (case fetched_abstract E s of
        Inr a \<Rightarrow> Inr (abstract_record pn a)
      | Inl e \<Rightarrow> (case request_attr e of
                    None \<Rightarrow> Inl e
                  | Some _ \<Rightarrow> Inr (abstract_record pn (JStr ''Abstract fetch failed''))))"
  by (simp add: get_abstract_def issue_get_def Let_def ensure_token_keeps fetched_abstract_def
      split: sum.splits option.splits)

lemma process_doc_cases:
  "process_doc E doc s =
     (case document_id_parts E doc of
        Inl e \<Rightarrow> (Inl e, s)
      | Inr (pn, pt) \<Rightarrow>
          (let s1 = snd (get_abstract E pn pt s) in
           case fst (get_abstract E pn pt s) of
             Inl e \<Rightarrow> (Inl e, s1)
           | Inr r \<Rightarrow>
               (case insert_raises E (insert_calls s) of
                  Some e \<Rightarrow> (Inl e, s1\<lparr>insert_calls := Suc (insert_calls s)\<rparr>)
                | None \<Rightarrow> (Inr (), s1\<lparr>insert_calls := Suc (insert_calls s),
                                       stored := stored s @ [r],
                                       log := log s1 @ [InfoProcessed pn]\<rparr>))))"
proof (cases "document_id_parts E doc")
  case (Inl e)
  then show ?thesis by (simp add: process_doc_def)
next
  case (Inr p)
  obtain pn pt where p: "p = (pn, pt)" by (cases p)
  obtain r s1 where g: "get_abstract E pn pt s = (r, s1)" by (cases "get_abstract E pn pt s")
  have keeps: "stored s1 = stored s" "insert_calls s1 = insert_calls s"
    using get_abstract_keeps(1,2) [of E pn pt s] g by simp_all
  show ?thesis
    using Inr p g keeps
    by (simp add: process_doc_def insert_one_def Let_def split: sum.splits option.splits)
qed

lemma process_doc_stored:
  "stored (snd (process_doc E doc s)) = stored s
   \<or> (\<exists>pn pt r. document_id_parts E doc = Inr (pn, pt)
         \<and> fst (get_abstract E pn pt s) = Inr r
         \<and> stored (snd (process_doc E doc s)) = stored s @ [r])"
  by (auto simp add: process_doc_cases Let_def get_abstract_keeps
      split: sum.splits option.splits prod.splits)

lemma get_abstract_record:
  assumes "fst (get_abstract E pn pt s) = Inr r"
  shows "\<exists>a. r = abstract_record pn a"
  using assms by (auto simp add: get_abstract_result split: sum.splits option.splits)

lemma process_doc_exact:
  assumes "document_id_parts E doc = Inr (pn, pt)"
  shows "stored (snd (process_doc E doc s)) =
           (if (case fetched_abstract E s of Inl e \<Rightarrow> request_attr e \<noteq> None | Inr a \<Rightarrow> True)
               \<and> insert_raises E (insert_calls s) = None
            then stored s @ [JObj [(''patentNumber'', JStr pn),
                                   (''abstract'', case fetched_abstract E s of
                                                    Inl e \<Rightarrow> JStr ''Abstract fetch failed''
                                                  | Inr a \<Rightarrow> a)]]
            else stored s)"
    and "fst (process_doc E doc s) =
           (case fetched_abstract E s of
              Inl e \<Rightarrow> (case request_attr e of
                          None \<Rightarrow> Inl e
                        | Some _ \<Rightarrow> (case insert_raises E (insert_calls s) of
                                       Some e' \<Rightarrow> Inl e' | None \<Rightarrow> Inr ()))
            | Inr a \<Rightarrow> (case insert_raises E (insert_calls s) of
                          Some e' \<Rightarrow> Inl e' | None \<Rightarrow> Inr ()))"
    and "length (get_requests (snd (process_doc E doc s))) = Suc (length (get_requests s))"
  using assms get_abstract_keeps(3) [of E pn pt s]
  by (auto simp add: process_doc_cases get_abstract_result abstract_record_def Let_def
      get_abstract_keeps split: sum.splits option.splits)

lemma process_doc_no_identifier:
  assumes "isl (document_id_parts E doc)"
  shows "stored (snd (process_doc E doc s)) = stored s"
  using assms by (cases "document_id_parts E doc") (simp_all add: process_doc_def)

lemma process_doc_adds:
  assumes "\<And>doc pn pt s'. document_id_parts E doc = Inr (pn, pt) \<Longrightarrow>
             P (JObj [(''patentNumber'', JStr pn),
                      (''abstract'', case fetched_abstract E s' of
                                       Inl e \<Rightarrow> JStr ''Abstract fetch failed''
                                     | Inr a \<Rightarrow> a)])"
  shows "\<exists>new. stored (snd (process_doc E doc s)) = stored s @ new \<and> (\<forall>r\<in>set new. P r)"
proof (cases "document_id_parts E doc")
  case (Inl e)
  then have "stored (snd (process_doc E doc s)) = stored s"
    by (simp add: process_doc_no_identifier)
  then show ?thesis by (intro exI [of _ "[]"]) simp
next
  case (Inr p)
  obtain pn pt where p: "p = (pn, pt)" by (cases p)
  with Inr have parts: "document_id_parts E doc = Inr (pn, pt)" by simp
  from process_doc_exact(1) [OF parts, of s]
  have "stored (snd (process_doc E doc s)) = stored s
       \<or> stored (snd (process_doc E doc s)) =
           stored s @ [JObj [(''patentNumber'', JStr pn),
                             (''abstract'', case fetched_abstract E s of
                                              Inl e \<Rightarrow> JStr ''Abstract fetch failed''
                                            | Inr a \<Rightarrow> a)]]"
    by (simp split: if_splits)
  then show ?thesis
  proof
    assume "stored (snd (process_doc E doc s)) = stored s"
    then show ?thesis by (intro exI [of _ "[]"]) simp
  next
    let ?r = "JObj [(''patentNumber'', JStr pn),
                    (''abstract'', case fetched_abstract E s of
                                     Inl e \<Rightarrow> JStr ''Abstract fetch failed''
                                   | Inr a \<Rightarrow> a)]"
    assume "stored (snd (process_doc E doc s)) = stored s @ [?r]"
    moreover have "P ?r" by (rule assms [OF parts])
    ultimately show ?thesis by (intro exI [of _ "[?r]"]) simp
  qed
qed

lemma process_docs_adds:
  assumes "\<And>doc s. \<exists>new. stored (snd (process_doc E doc s)) = stored s @ new
                          \<and> (\<forall>r\<in>set new. P r)"
  shows "\<exists>new. stored (snd (process_docs E docs s)) = stored s @ new \<and> (\<forall>r\<in>set new. P r)"
proof (induction docs arbitrary: s)
  case Nil
  show ?case by (intro exI [of _ "[]"]) simp
next
  case (Cons doc docs)
  obtain r s1 where step: "process_doc E doc s = (r, s1)" by (cases "process_doc E doc s")
  from assms [of doc s] step obtain new1 where
    n1: "stored s1 = stored s @ new1" "\<forall>r\<in>set new1. P r" by auto
  show ?case
  proof (cases r)
    case (Inl e)
    with step n1 show ?thesis by (intro exI [of _ new1]) simp
  next
    case (Inr u)
    from Cons.IH [of s1] obtain new2 where
      n2: "stored (snd (process_docs E docs s1)) = stored s1 @ new2" "\<forall>r\<in>set new2. P r"
      by blast
    with Inr step n1 show ?thesis by (intro exI [of _ "new1 @ new2"]) auto
  qed
qed

lemma keyword_body_adds:
  assumes "\<And>doc s. \<exists>new. stored (snd (process_doc E doc s)) = stored s @ new
                          \<and> (\<forall>r\<in>set new. P r)"
  shows "\<exists>new. stored (snd (keyword_body E kw results s)) = stored s @ new
              \<and> (\<forall>r\<in>set new. P r)"
proof -
  have trivial: "\<exists>new. stored s = stored s @ new \<and> (\<forall>r\<in>set new. P r)"
    by (intro exI [of _ "[]"]) simp
  show ?thesis
    using trivial process_docs_adds [of E P _ "s\<lparr>log := log s @ [InfoProcessing kw]\<rparr>", OF assms]
    by (simp add: keyword_body_def Let_def split: sum.splits)
qed

lemma process_keyword_stored:
  "stored (snd (process_keyword E kw s)) = stored s
   \<or> (\<exists>results s1. stored s1 = stored s
         \<and> stored (snd (process_keyword E kw s)) = stored (snd (keyword_body E kw results s1)))"
proof -
  obtain r s1 where sp: "search_patents E kw s = (r, s1)" by (cases "search_patents E kw s")
  have s1: "stored s1 = stored s" using search_patents_keeps(1) [of E kw s] sp by simp
  show ?thesis
  proof (cases r)
    case (Inl e)
    with sp s1 show ?thesis by (simp add: process_keyword_def)
  next
    case (Inr results)
    obtain r2 s2 where kb: "keyword_body E kw results s1 = (r2, s2)"
      by (cases "keyword_body E kw results s1")
    have "stored (snd (process_keyword E kw s)) = stored s
          \<or> stored (snd (process_keyword E kw s)) = stored (snd (keyword_body E kw results s1))"
      using sp s1 Inr kb by (cases r2) (simp_all add: process_keyword_def)
    with s1 show ?thesis by blast
  qed
qed

lemma process_keyword_adds:
  assumes "\<And>doc s. \<exists>new. stored (snd (process_doc E doc s)) = stored s @ new
                          \<and> (\<forall>r\<in>set new. P r)"
  shows "\<exists>new. stored (snd (process_keyword E kw s)) = stored s @ new \<and> (\<forall>r\<in>set new. P r)"
proof -
  from process_keyword_stored [of E kw s] show ?thesis
  proof
    assume "stored (snd (process_keyword E kw s)) = stored s"
    then show ?thesis by (intro exI [of _ "[]"]) simp
  next
    assume "\<exists>results s1. stored s1 = stored s
         \<and> stored (snd (process_keyword E kw s)) = stored (snd (keyword_body E kw results s1))"
    then obtain results s1 where s1: "stored s1 = stored s"
      "stored (snd (process_keyword E kw s)) = stored (snd (keyword_body E kw results s1))"
      by blast
    with keyword_body_adds [of E P kw results s1, OF assms] show ?thesis by simp
  qed
qed

lemmas run_defs = demo_env_def demo_client_def harvest_env_def ok_response_def
  status_response_def search_result_def reference_def abstract_body_def
  process_keyword_def search_patents_def keyword_body_def process_doc_def get_abstract_def
  document_id_parts_def dollar_of_def extract_abstract_def insert_one_def issue_get_def
  fetch_json_def raise_for_status_def ensure_token_def read_clock_def format_value_def
  base_url_def abstract_record_def Let_def

section \<open>The identifier of a record\<close>

lemma dollar_of_field:
  assumes "case map_of doc_id k of None \<Rightarrow> True | Some f \<Rightarrow> is_dict f"
  shows "\<exists>v. dollar_of (JObj doc_id) k = Inr v \<and> format_value E v = api_field E doc_id k"
proof (cases "map_of doc_id k")
  case None
  then show ?thesis by (simp add: dollar_of_def api_field_def format_value_def)
next
  case (Some f)
  with assms obtain kv where "f = JObj kv" by (cases f) auto
  with Some show ?thesis
    by (simp add: dollar_of_def api_field_def format_value_def split: option.splits)
qed

text \<open>
  Claim C7. For a matched reference whose \<^verbatim>\<open>document-id\<close> is a dict or missing, and whose
  country, document number and kind code are dicts where they are there, the
  \<^verbatim>\<open>patent_number\<close> the loop computes is the country code, the document number and the
  kind code as the API returned them, concatenated in this order; a field that is missing
  (also its \<^verbatim>\<open>$\<close>, also the whole \<^verbatim>\<open>document-id\<close>) counts as the empty string and raises
  nothing. The record the loop stores for the reference has this string under
  \<^verbatim>\<open>patentNumber\<close>.
\<close>

theorem identifier_is_concatenation:
  assumes "reference_id doc = Some doc_id" and "fields_are_dicts doc_id"
  shows "map_sum id fst (document_id_parts E (JObj doc)) =
           Inr (api_field E doc_id ''country'' @ api_field E doc_id ''doc-number''
                  @ api_field E doc_id ''kind'')
         \<and> (\<forall>pn pt s r. document_id_parts E (JObj doc) = Inr (pn, pt)
               \<and> stored (snd (process_doc E (JObj doc) s)) = stored s @ [r]
              \<longrightarrow> py_subscript r ''patentNumber'' = Inr (JStr pn))"
proof -
  from assms(2) obtain c n k where
    c: "dollar_of (JObj doc_id) ''country'' = Inr c"
       "format_value E c = api_field E doc_id ''country''" and
    n: "dollar_of (JObj doc_id) ''doc-number'' = Inr n"
       "format_value E n = api_field E doc_id ''doc-number''" and
    k: "dollar_of (JObj doc_id) ''kind'' = Inr k"
       "format_value E k = api_field E doc_id ''kind''"
    using dollar_of_field [of doc_id "''country''" E]
      dollar_of_field [of doc_id "''doc-number''" E] dollar_of_field [of doc_id "''kind''" E]
    by (auto simp: fields_are_dicts_def)
  have "py_get (JObj doc) ''document-id'' (JObj []) = Inr (JObj doc_id)"
    using assms(1) by (auto simp: reference_id_def split: option.splits json.splits)
  then have first: "map_sum id fst (document_id_parts E (JObj doc)) =
           Inr (api_field E doc_id ''country'' @ api_field E doc_id ''doc-number''
                  @ api_field E doc_id ''kind'')"
    using c n k by (simp add: document_id_parts_def)
  have second: "py_subscript r ''patentNumber'' = Inr (JStr pn)"
    if "document_id_parts E (JObj doc) = Inr (pn, pt)"
      and "stored (snd (process_doc E (JObj doc) s)) = stored s @ [r]" for pn pt s r
  proof -
    from process_doc_stored [of E "JObj doc" s] that
    have "fst (get_abstract E pn pt s) = Inr r" by auto
    from get_abstract_record [OF this] show ?thesis by (auto simp: abstract_record_def)
  qed
  from first second show ?thesis by blast
qed

theorem identifier_is_concatenation_witness:
  "map_sum id fst (document_id_parts (demo_env 0) (JObj demo_reference)) = Inr ''EP1000000''
   \<and> map_sum id fst (document_id_parts (demo_env 0) (JObj [])) = Inr []"
  using identifier_is_concatenation [where E = "demo_env 0" and doc = demo_reference
           and doc_id = "[(''@document-id-type'', JStr ''docdb''),
                             (''country'', JObj [(''$'', JStr ''EP'')]),
                             (''doc-number'', JObj [(''$'', JStr ''1000000'')])]"]
        identifier_is_concatenation [where E = "demo_env 0" and doc = "[]" and doc_id = "[]"]
  by (simp add: demo_reference_def reference_id_def fields_are_dicts_def api_field_def
      format_value_def)

section \<open>The records of the harvest stage\<close>

lemma extract_abstract_value:
  assumes "extract_abstract data = Inr a"
  shows "\<exists>kv. get_path data [''ops:world-patent-data'', ''exchange-documents'',
                             ''exchange-document'', ''abstract'', ''p''] = Inr (JObj kv)
           \<and> a = (case map_of kv ''$'' of None \<Rightarrow> JStr ''No abstract available'' | Some v \<Rightarrow> v)"
proof -
  from assms obtain p where p: "get_path data [''ops:world-patent-data'', ''exchange-documents'',
                             ''exchange-document'', ''abstract'', ''p''] = Inr p"
    and a: "py_get p ''$'' (JStr ''No abstract available'') = Inr a"
    unfolding extract_abstract_def by (auto split: sum.splits)
  from a obtain kv where "p = JObj kv" by (cases p) auto
  with p a show ?thesis by auto
qed

lemma document_id_parts_concat:
  assumes "reference_id doc = Some doc_id" and "fields_are_dicts doc_id"
  shows "map_sum id fst (document_id_parts E (JObj doc)) =
           Inr (api_field E doc_id ''country'' @ api_field E doc_id ''doc-number''
                  @ api_field E doc_id ''kind'')"
proof -
  from assms(2) obtain c n k where
    c: "dollar_of (JObj doc_id) ''country'' = Inr c"
       "format_value E c = api_field E doc_id ''country''" and
    n: "dollar_of (JObj doc_id) ''doc-number'' = Inr n"
       "format_value E n = api_field E doc_id ''doc-number''" and
    k: "dollar_of (JObj doc_id) ''kind'' = Inr k"
       "format_value E k = api_field E doc_id ''kind''"
    using dollar_of_field [of doc_id "''country''" E]
      dollar_of_field [of doc_id "''doc-number''" E] dollar_of_field [of doc_id "''kind''" E]
    by (auto simp: fields_are_dicts_def)
  have "py_get (JObj doc) ''document-id'' (JObj []) = Inr (JObj doc_id)"
    using assms(1) by (auto simp: reference_id_def split: option.splits json.splits)
  then show ?thesis
    using c n k by (simp add: document_id_parts_def)
qed

text \<open>
  Claim C8, as amended. Every record the harvest stage stores has both fields, and they
  hold this: \<^verbatim>\<open>patentNumber\<close> is the string the loop computed for the reference, that is,
  the concatenation of country code, document number and kind code of claim C7 (the empty
  string when the reference has none of the three); \<^verbatim>\<open>abstract\<close> is the text
  \<open>Abstract fetch failed\<close> when the detail fetch raised a RequestException, and otherwise
  what the body holds under \<^verbatim>\<open>$\<close> of the abstract's paragraph, or
  \<open>No abstract available\<close> when there is nothing there. A turn of the loop stores exactly
  this one record when the fetch returned or raised a RequestException and the insert did
  not raise, and stores nothing otherwise; a keyword stores only records of this form.
  Nothing is said of the patent number being non-empty.
\<close>

theorem stored_records_have_both_fields:
  "(document_id_parts E doc = Inr (pn, pt) \<longrightarrow>
        stored (snd (process_doc E doc s)) =
          (if (case fetched_abstract E s of Inl e \<Rightarrow> request_attr e \<noteq> None | Inr a \<Rightarrow> True)
              \<and> insert_raises E (insert_calls s) = None
           then stored s @ [JObj [(''patentNumber'', JStr pn),
                                  (''abstract'', case fetched_abstract E s of
                                                   Inl e \<Rightarrow> JStr ''Abstract fetch failed''
                                                 | Inr a \<Rightarrow> a)]]
           else stored s))
   \<and> (isl (document_id_parts E doc) \<longrightarrow> stored (snd (process_doc E doc s)) = stored s)
   \<and> (reference_id ref = Some doc_id \<and> fields_are_dicts doc_id
        \<and> document_id_parts E (JObj ref) = Inr (pn, pt) \<longrightarrow>
        pn = api_field E doc_id ''country'' @ api_field E doc_id ''doc-number''
               @ api_field E doc_id ''kind'')
   \<and> (\<exists>new. stored (snd (process_keyword E kw s)) = stored s @ new
       \<and> (\<forall>r\<in>set new. \<exists>d n t s'. document_id_parts E d = Inr (n, t)
              \<and> r = JObj [(''patentNumber'', JStr n),
                          (''abstract'', case fetched_abstract E s' of
                                           Inl e \<Rightarrow> JStr ''Abstract fetch failed''
                                         | Inr a \<Rightarrow> a)]))
   \<and> (fst (get_abstract E pn pt s) = Inr r \<longrightarrow>
        r = JObj [(''patentNumber'', JStr pn),
                  (''abstract'', case fetched_abstract E s of
                                   Inl e \<Rightarrow> JStr ''Abstract fetch failed''
                                 | Inr a \<Rightarrow> a)])
   \<and> (extract_abstract data = Inr a \<longrightarrow>
        (\<exists>kv. get_path data [''ops:world-patent-data'', ''exchange-documents'',
                             ''exchange-document'', ''abstract'', ''p''] = Inr (JObj kv)
           \<and> a = (case map_of kv ''$'' of None \<Rightarrow> JStr ''No abstract available''
                 | Some v \<Rightarrow> v)))"
proof -
  let ?P = "\<lambda>r. \<exists>d n t s'. document_id_parts E d = Inr (n, t)
              \<and> r = JObj [(''patentNumber'', JStr n),
                          (''abstract'', case fetched_abstract E s' of
                                           Inl e \<Rightarrow> JStr ''Abstract fetch failed''
                                         | Inr a \<Rightarrow> a)]"
  have step: "\<exists>new. stored (snd (process_doc E doc s)) = stored s @ new \<and> (\<forall>r\<in>set new. ?P r)"
    for doc s
    by (rule process_doc_adds) blast
  have keyword: "\<exists>new. stored (snd (process_keyword E kw s)) = stored s @ new
       \<and> (\<forall>r\<in>set new. ?P r)"
    by (rule process_keyword_adds) (rule step)
  have one: "document_id_parts E doc = Inr (pn, pt) \<longrightarrow>
        stored (snd (process_doc E doc s)) =
          (if (case fetched_abstract E s of Inl e \<Rightarrow> request_attr e \<noteq> None | Inr a \<Rightarrow> True)
              \<and> insert_raises E (insert_calls s) = None
           then stored s @ [JObj [(''patentNumber'', JStr pn),
                                  (''abstract'', case fetched_abstract E s of
                                                   Inl e \<Rightarrow> JStr ''Abstract fetch failed''
                                                 | Inr a \<Rightarrow> a)]]
           else stored s)"
    using process_doc_exact(1) [of E doc pn pt s] by blast
  have none: "isl (document_id_parts E doc) \<longrightarrow> stored (snd (process_doc E doc s)) = stored s"
    using process_doc_no_identifier [of E doc s] by blast
  have concat: "reference_id ref = Some doc_id \<and> fields_are_dicts doc_id
        \<and> document_id_parts E (JObj ref) = Inr (pn, pt) \<longrightarrow>
        pn = api_field E doc_id ''country'' @ api_field E doc_id ''doc-number''
               @ api_field E doc_id ''kind''"
    using document_id_parts_concat [of ref doc_id E] by auto
  have fetched: "fst (get_abstract E pn pt s) = Inr r \<longrightarrow>
        r = JObj [(''patentNumber'', JStr pn),
                  (''abstract'', case fetched_abstract E s of
                                   Inl e \<Rightarrow> JStr ''Abstract fetch failed''
                                 | Inr a \<Rightarrow> a)]"
    by (auto simp add: get_abstract_result abstract_record_def split: sum.splits option.splits)
  from one none concat keyword fetched extract_abstract_value [of data a]
  show ?thesis by blast
qed

theorem stored_records_have_both_fields_witness:
  "stored (snd (process_doc flaky_env (hd two_references) demo_client)) =
     [JObj [(''patentNumber'', JStr ''EP1A1''), (''abstract'', JStr ''Abstract fetch failed'')]]
   \<and> map_sum id fst (document_id_parts (demo_env 0) (JObj demo_reference)) = Inr ''EP1000000''
   \<and> fst (get_abstract (harvest_env [Inr (ok_response (abstract_body ''A battery.''))])
             ''EP1A1'' (JStr ''docdb'') demo_client) =
       Inr (JObj [(''patentNumber'', JStr ''EP1A1''), (''abstract'', JStr ''A battery.'')])
   \<and> extract_abstract (abstract_body ''A battery.'') = Inr (JStr ''A battery.'')
   \<and> extract_abstract (JObj []) = Inr (JStr ''No abstract available'')"
proof -
  let ?doc_id = "[(''@document-id-type'', JStr ''docdb''),
                  (''country'', JObj [(''$'', JStr ''EP'')]),
                  (''doc-number'', JObj [(''$'', JStr ''1000000'')])]"
  let ?E = "harvest_env [Inr (ok_response (abstract_body ''A battery.''))]"
  have parts: "document_id_parts flaky_env (hd two_references) = Inr (''EP1A1'', JStr ''docdb'')"
    "document_id_parts (demo_env 0) (JObj demo_reference) = Inr (''EP1000000'', JStr ''docdb'')"
    by (simp_all add: two_references_def demo_reference_def flaky_env_def run_defs)
  have fetch: "fetched_abstract flaky_env demo_client =
                 Inl (RequestException (AttrResp ''error''))"
    "fetched_abstract ?E demo_client = Inr (JStr ''A battery.'')"
    by (simp_all add: fetched_abstract_def flaky_env_def run_defs)
  have ins: "insert_raises flaky_env (insert_calls demo_client) = None"
    by (simp add: flaky_env_def run_defs)
  have ref: "reference_id demo_reference = Some ?doc_id" "fields_are_dicts ?doc_id"
    by (simp_all add: demo_reference_def reference_id_def fields_are_dicts_def)
  have got: "fst (get_abstract ?E ''EP1A1'' (JStr ''docdb'') demo_client) =
       Inr (JObj [(''patentNumber'', JStr ''EP1A1''), (''abstract'', JStr ''A battery.'')])"
    by (simp add: run_defs)
  have ex: "extract_abstract (abstract_body ''A battery.'') = Inr (JStr ''A battery.'')"
    "extract_abstract (JObj []) = Inr (JStr ''No abstract available'')"
    by (simp_all add: run_defs)
  from stored_records_have_both_fields
         [where E = flaky_env and doc = "hd two_references" and pn = "''EP1A1''"
            and pt = "JStr ''docdb''" and s = demo_client and ref = demo_reference
            and doc_id = ?doc_id and kw = "''battery''"
            and r = "JObj [(''patentNumber'', JStr ''EP1A1''), (''abstract'', JStr ''A battery.'')]"
            and data = "JObj []" and a = "JStr ''No abstract available''"]
       parts(1) fetch(1) ins
  have one: "stored (snd (process_doc flaky_env (hd two_references) demo_client)) =
     stored demo_client
       @ [JObj [(''patentNumber'', JStr ''EP1A1''), (''abstract'', JStr ''Abstract fetch failed'')]]"
    by simp
  from stored_records_have_both_fields
         [where E = "demo_env 0" and doc = "JObj demo_reference" and pn = "''EP1000000''"
            and pt = "JStr ''docdb''" and s = demo_client and ref = demo_reference
            and doc_id = ?doc_id and kw = "''battery''"
            and r = "JObj [(''patentNumber'', JStr ''EP1A1''), (''abstract'', JStr ''A battery.'')]"
            and data = "JObj []" and a = "JStr ''No abstract available''"]
       parts(2) ref
  have two: "''EP1000000'' = api_field (demo_env 0) ?doc_id ''country''
               @ api_field (demo_env 0) ?doc_id ''doc-number''
               @ api_field (demo_env 0) ?doc_id ''kind''"
    by blast
  have "stored demo_client = []" by (simp add: demo_client_def)
  with one two parts(2) got ex show ?thesis by simp
qed

text \<open>
  Claim C8 as the specification states it (the patent number of a stored record is never
  empty) fails on a search result whose one reference has no \<^verbatim>\<open>document-id\<close>: the three
  defaults make the identifier the empty string, and the record is stored under it.
\<close>

theorem stored_patent_number_nonempty_counterexample:
  "stored (snd (process_keyword
      (harvest_env [Inr (ok_response (search_result [JObj [(''@system'', JStr ''ops.epo.org'')]]))])
      ''battery'' demo_client)) =
     [JObj [(''patentNumber'', JStr []), (''abstract'', JStr ''Abstract fetch failed'')]]
   \<and> py_subscript (JObj [(''patentNumber'', JStr []), (''abstract'', JStr ''Abstract fetch failed'')])
         ''patentNumber'' = Inr (JStr [])"
  by (simp add: run_defs)

section \<open>A search that fails\<close>

lemma search_patents_failure:
  assumes "fetch_json (http_get E (length (get_requests s))) = Inl e"
  shows "fst (search_patents E kw s) =
           (case request_attr e of
              None \<Rightarrow> Inl e
            | Some AttrNone \<Rightarrow> Inl AttributeError
            | Some _ \<Rightarrow> Inr JNull)"
    and "log (snd (search_patents E kw s)) =
           (case request_attr e of
              None \<Rightarrow> log (ensure_token E s)
            | Some _ \<Rightarrow> log (ensure_token E s) @ [ErrFetchKeyword kw e])"
  using assms
  by (simp_all add: search_patents_def issue_get_def Let_def ensure_token_keeps
      split: sum.splits option.splits resp_attr.splits)

lemma process_keyword_failed_search:
  assumes "fetch_json (http_get E (length (get_requests s))) = Inl e"
  shows "process_keyword E kw s =
           (case request_attr e of
              None \<Rightarrow> Inl e
            | Some AttrNone \<Rightarrow> Inl AttributeError
            | Some _ \<Rightarrow> Inr (), snd (search_patents E kw s))"
proof -
  obtain r s1 where sp: "search_patents E kw s = (r, s1)" by (cases "search_patents E kw s")
  with search_patents_failure(1) [OF assms, of kw]
  have r: "r = (case request_attr e of
              None \<Rightarrow> Inl e
            | Some AttrNone \<Rightarrow> Inl AttributeError
            | Some _ \<Rightarrow> Inr JNull)" by simp
  show ?thesis
    using sp r by (simp add: process_keyword_def split: option.splits resp_attr.splits)
qed

text \<open>
  Claim C5, as amended. When the search request of a keyword is answered with an HTTP
  error status (4xx or 5xx), \<^verbatim>\<open>search_patents\<close> logs the error and returns \<^verbatim>\<open>None\<close>, and
  \<^verbatim>\<open>process_keyword\<close> returns normally: the worker raises nothing, so the future of the
  keyword completes like that of any other keyword and only the log line tells of the
  failure. No detail fetch is issued (the search is the only GET), \<^verbatim>\<open>insert_one\<close> is not
  called and nothing is stored. When the status is fine and the body cannot be parsed,
  again no detail fetch is issued and nothing is stored; the call returns when the
  exception of \<^verbatim>\<open>json()\<close> is a RequestException that carries a response, raises
  AttributeError out of the handler when its \<^verbatim>\<open>response\<close> is \<^verbatim>\<open>None\<close>, and raises the
  exception itself when it is not a RequestException.
\<close>

theorem failed_search_fetches_and_stores_nothing:
  assumes "http_get E (length (get_requests s)) = Inr resp"
  shows "(400 \<le> status_code resp \<and> status_code resp < 600 \<longrightarrow>
            fst (process_keyword E kw s) = Inr ()
          \<and> log (snd (process_keyword E kw s)) =
              log (ensure_token E s)
                @ [ErrFetchKeyword kw (RequestException (AttrResp (content resp)))]
          \<and> stored (snd (process_keyword E kw s)) = stored s
          \<and> insert_calls (snd (process_keyword E kw s)) = insert_calls s
          \<and> length (get_requests (snd (process_keyword E kw s))) = Suc (length (get_requests s)))
       \<and> (\<not> (400 \<le> status_code resp \<and> status_code resp < 600) \<and> body resp = Inl e \<longrightarrow>
            fst (process_keyword E kw s) =
              (case request_attr e of
                 None \<Rightarrow> Inl e
               | Some AttrNone \<Rightarrow> Inl AttributeError
               | Some _ \<Rightarrow> Inr ())
          \<and> stored (snd (process_keyword E kw s)) = stored s
          \<and> insert_calls (snd (process_keyword E kw s)) = insert_calls s
          \<and> length (get_requests (snd (process_keyword E kw s))) = Suc (length (get_requests s)))"
proof -
  have status: "fetch_json (http_get E (length (get_requests s))) =
                  Inl (RequestException (AttrResp (content resp)))"
    if "400 \<le> status_code resp \<and> status_code resp < 600"
    using assms that by (simp add: fetch_json_def raise_for_status_def)
  have malformed: "fetch_json (http_get E (length (get_requests s))) = Inl e"
    if "\<not> (400 \<le> status_code resp \<and> status_code resp < 600)" "body resp = Inl e"
    using assms that by (auto simp add: fetch_json_def raise_for_status_def)
  show ?thesis
    using process_keyword_failed_search [OF status, of kw]
      process_keyword_failed_search [OF malformed, of kw]
      search_patents_failure(2) [OF status, of kw]
      search_patents_keeps [of E kw s]
    by auto
qed

theorem failed_search_fetches_and_stores_nothing_witness:
  "fst (process_keyword (demo_env 0) ''battery'' demo_client) = Inr ()
   \<and> stored (snd (process_keyword (demo_env 0) ''battery'' demo_client)) = []
   \<and> length (get_requests (snd (process_keyword (demo_env 0) ''battery'' demo_client))) = 1
   \<and> fst (process_keyword (harvest_env [Inr html_response])
            ''battery'' demo_client) = Inl AttributeError
   \<and> stored (snd (process_keyword (harvest_env [Inr html_response])
            ''battery'' demo_client)) = []"
  using failed_search_fetches_and_stores_nothing
     [where E = "demo_env 0" and s = demo_client and resp = "status_response 500"
        and kw = "''battery''"]
    failed_search_fetches_and_stores_nothing
     [where E = "harvest_env [Inr html_response]"
        and s = demo_client and resp = "html_response"
        and kw = "''battery''" and e = "RequestException AttrNone"]
  by (simp add: demo_env_def demo_client_def harvest_env_def status_response_def
      html_response_def)

text \<open>
  Claim C5 as the specification states it (the item fails; the report of the scenario
  counts it as failed) does not hold: with status 500 for the search of the one keyword,
  the worker returns: of the futures of the run, one returned and none holds an exception.
\<close>

theorem failed_search_outcome_counterexample:
  "http_get (demo_env 0) 0 = Inr (status_response 500)
   \<and> fst (process_keyword (demo_env 0) ''battery'' (EPOClient_init (demo_env 0) demo_client)) = Inr ()
   \<and> fst (harvest_main (demo_env 0) [''battery''] demo_client) = [Inr ()]
   \<and> length (filter (\<lambda>f. \<not> isl f)
               (fst (harvest_main (demo_env 0) [''battery''] demo_client))) = 1
   \<and> length (filter isl (fst (harvest_main (demo_env 0) [''battery''] demo_client))) = 0"
  by (simp add: run_defs harvest_main_def EPOClient_init_def get_oauth_token_def
      oauth_receive_def oauth_exchange_def)

section \<open>A detail fetch that fails\<close>






section \<open>One outcome for every item\<close>

lemma submit_all_step:
  "fst (submit_all f (x # xs) s) = fst (f x s) # fst (submit_all f xs (snd (f x s)))"
proof -
  obtain r s1 where a: "f x s = (r, s1)" by (cases "f x s")
  obtain rs s2 where b: "submit_all f xs s1 = (rs, s2)" by (cases "submit_all f xs s1")
  from a b show ?thesis by simp
qed

lemma submit_all_length: "length (fst (submit_all f items s)) = length items"
proof (induction items arbitrary: s)
  case Nil
  show ?case by simp
next
  case (Cons x xs)
  show ?case unfolding submit_all_step using Cons.IH by simp
qed

lemma submit_all_snd:
  "snd (submit_all f (x # xs) s) = snd (submit_all f xs (snd (f x s)))"
proof -
  obtain r s1 where a: "f x s = (r, s1)" by (cases "f x s")
  obtain rs s2 where b: "submit_all f xs s1 = (rs, s2)" by (cases "submit_all f xs s1")
  from a b show ?thesis by simp
qed

lemma submit_all_nth:
  "i < length items \<Longrightarrow>
     fst (submit_all f items s) ! i =
       fst (f (items ! i) (snd (submit_all f (take i items) s)))"
proof (induction items arbitrary: s i)
  case Nil
  then show ?case by simp
next
  case (Cons x xs)
  show ?case
  proof (cases i)
    case 0
    then show ?thesis unfolding submit_all_step by simp
  next
    case (Suc j)
    with Cons.prems have "j < length xs" by simp
    from Cons.IH [OF this, of "snd (f x s)"] Suc show ?thesis
      unfolding submit_all_step by (simp add: submit_all_snd del: submit_all.simps)
  qed
qed

lemma log_exceptions_log:
  "log (log_exceptions futures s) = log s @ map ErrThread (raised futures)"
  by (induction futures arbitrary: s rule: raised.induct) simp_all

lemma log_results_log:
  "elog (log_results futures s) = elog s @ map ErrWorker (raised futures)"
  by (induction futures arbitrary: s rule: raised.induct) simp_all

text \<open>
  Claim C1, as amended. For every list of N submitted items the pool holds N futures, and
  the i-th future holds what processing the i-th item gave, on the state the items before
  it left: its return or the exception it raised. So no item is dropped, and an exception
  raised for one item stays in the future of that item and does not keep the items after
  it from being processed. \<^verbatim>\<open>main\<close> then reads every future, logs one error line per
  exception, in the order of the futures, and returns \<^verbatim>\<open>None\<close>, in the harvest stage and
  in the embedding stage (which, given no abstracts at all, logs that and returns with no
  futures). No report is built and nothing is counted: the futures and the log are all
  that is kept of the outcomes.
\<close>

theorem every_item_has_one_future:
  "length (fst (harvest_main E kws s0)) = length kws
   \<and> (\<forall>i<length kws.
        fst (harvest_main E kws s0) ! i =
          fst (process_keyword E (kws ! i)
                 (snd (submit_all (process_keyword E) (take i kws) (EPOClient_init E s0)))))
   \<and> fst (snd (harvest_main E kws s0)) = Inr ()
   \<and> log (snd (snd (harvest_main E kws s0))) =
       log (snd (submit_all (process_keyword E) kws (EPOClient_init E s0)))
         @ map ErrThread (raised (fst (harvest_main E kws s0)))
   \<and> length (fst (embed_main E' abstracts s1)) = length abstracts
   \<and> (\<forall>i<length abstracts.
        fst (embed_main E' abstracts s1) ! i =
          fst (process_abstract E' (abstracts ! i)
                 (snd (submit_all (process_abstract E') (take i abstracts) s1))))
   \<and> fst (snd (embed_main E' abstracts s1)) = Inr ()
   \<and> elog (snd (snd (embed_main E' abstracts s1))) =
       (if abstracts = [] then elog s1 @ [ErrNoAbstracts]
        else elog (snd (submit_all (process_abstract E') abstracts s1))
               @ map ErrWorker (raised (fst (embed_main E' abstracts s1))))
   \<and> raised (Inl e # futures) = e # raised futures
   \<and> raised (Inr u # futures) = raised futures
   \<and> raised [] = []"
proof -
  have h: "fst (harvest_main E kws s0) =
             fst (submit_all (process_keyword E) kws (EPOClient_init E s0))"
    "snd (harvest_main E kws s0) =
       (Inr (), log_exceptions (fst (harvest_main E kws s0))
                  (snd (submit_all (process_keyword E) kws (EPOClient_init E s0))))"
    by (simp_all add: harvest_main_def Let_def split: prod.splits)
  have e: "fst (embed_main E' abstracts s1) = fst (submit_all (process_abstract E') abstracts s1)"
    "fst (snd (embed_main E' abstracts s1)) = Inr ()"
    "abstracts \<noteq> [] \<Longrightarrow> snd (snd (embed_main E' abstracts s1)) =
       log_results (fst (embed_main E' abstracts s1))
                  (snd (submit_all (process_abstract E') abstracts s1))"
    "abstracts = [] \<Longrightarrow> snd (snd (embed_main E' abstracts s1)) = s1\<lparr>elog := elog s1 @ [ErrNoAbstracts]\<rparr>"
    by (simp_all add: embed_main_def Let_def split: prod.splits)
  have hn: "\<forall>i<length kws.
        fst (harvest_main E kws s0) ! i =
          fst (process_keyword E (kws ! i)
                 (snd (submit_all (process_keyword E) (take i kws) (EPOClient_init E s0))))"
    unfolding h(1) by (simp add: submit_all_nth del: submit_all.simps)
  have en: "\<forall>i<length abstracts.
        fst (embed_main E' abstracts s1) ! i =
          fst (process_abstract E' (abstracts ! i)
                 (snd (submit_all (process_abstract E') (take i abstracts) s1)))"
    unfolding e(1) by (simp add: submit_all_nth del: submit_all.simps)
  have hl: "length (fst (harvest_main E kws s0)) = length kws"
    by (simp add: h(1) submit_all_length)
  have el: "length (fst (embed_main E' abstracts s1)) = length abstracts"
    by (simp add: e(1) submit_all_length)
  have hlog: "log (snd (snd (harvest_main E kws s0))) =
       log (snd (submit_all (process_keyword E) kws (EPOClient_init E s0)))
         @ map ErrThread (raised (fst (harvest_main E kws s0)))"
    by (simp add: h(2) log_exceptions_log)
  have elog: "elog (snd (snd (embed_main E' abstracts s1))) =
       (if abstracts = [] then elog s1 @ [ErrNoAbstracts]
        else elog (snd (submit_all (process_abstract E') abstracts s1))
               @ map ErrWorker (raised (fst (embed_main E' abstracts s1))))"
    using e(3,4) by (simp add: log_results_log)
  from hl hn h(2) hlog el en e(2) elog show ?thesis by simp
qed

theorem every_item_has_one_future_witness:
  "fst (harvest_main crash_env [''solar'', ''battery''] demo_client) = [Inl AttributeError, Inr ()]
   \<and> fst (process_keyword crash_env ''solar'' (EPOClient_init crash_env demo_client)) =
       Inl AttributeError
   \<and> fst (snd (harvest_main crash_env [''solar'', ''battery''] demo_client)) = Inr ()
   \<and> last (log (snd (snd (harvest_main crash_env [''solar'', ''battery''] demo_client)))) =
       ErrThread AttributeError"
proof -
  have run: "fst (harvest_main crash_env [''solar'', ''battery''] demo_client) =
               [Inl AttributeError, Inr ()]"
    by (simp add: crash_env_def run_defs harvest_main_def EPOClient_init_def get_oauth_token_def
        oauth_receive_def oauth_exchange_def)
  have two: "length [''solar'', ''battery''] = 2" by simp
  note inst = every_item_has_one_future
         [where E = crash_env and kws = "[''solar'', ''battery'']" and ?s0.0 = demo_client
            and E' = "\<lparr>embeddings_create = (\<lambda>n. Inr []),
                       vectorize_insert = (\<lambda>n. Inr JNull)\<rparr>"
            and abstracts = "[]" and ?s1.0 = "\<lparr>embed_calls = [], vector_inserts = [], elog = []\<rparr>"
            and e = AttributeError and u = "()" and futures = "[]"]
  from inst have nth: "\<forall>i<length [''solar'', ''battery''].
        fst (harvest_main crash_env [''solar'', ''battery''] demo_client) ! i =
          fst (process_keyword crash_env ([''solar'', ''battery''] ! i)
                 (snd (submit_all (process_keyword crash_env) (take i [''solar'', ''battery''])
                         (EPOClient_init crash_env demo_client))))"
    by blast
  from nth have "fst (harvest_main crash_env [''solar'', ''battery''] demo_client) ! 0 =
          fst (process_keyword crash_env ([''solar'', ''battery''] ! 0)
                 (snd (submit_all (process_keyword crash_env) (take 0 [''solar'', ''battery''])
                         (EPOClient_init crash_env demo_client))))"
    by (metis two zero_less_numeral)
  then have first: "fst (process_keyword crash_env ''solar'' (EPOClient_init crash_env demo_client)) =
       Inl AttributeError"
    unfolding run by simp
  from inst have ret: "fst (snd (harvest_main crash_env [''solar'', ''battery''] demo_client)) = Inr ()"
    by blast
  from inst have "log (snd (snd (harvest_main crash_env [''solar'', ''battery''] demo_client))) =
       log (snd (submit_all (process_keyword crash_env) [''solar'', ''battery'']
                   (EPOClient_init crash_env demo_client)))
         @ map ErrThread (raised (fst (harvest_main crash_env [''solar'', ''battery''] demo_client)))"
    by blast
  then have lg: "last (log (snd (snd (harvest_main crash_env [''solar'', ''battery''] demo_client)))) =
       ErrThread AttributeError"
    unfolding run by simp
  from run first ret lg show ?thesis by simp
qed

text \<open>
  Claim C1 as the specification states it (the run produces a report with the numbers of
  succeeded and failed items) does not hold: \<^verbatim>\<open>main\<close> returns \<^verbatim>\<open>None\<close> whether the worker
  of its one keyword raised or returned, and in the second run, where the search was
  answered with status 500, the future of the keyword has returned like that of a keyword
  that was harvested.
\<close>

theorem batch_report_counterexample:
  "fst (harvest_main crash_env [''solar''] demo_client) = [Inl AttributeError]
   \<and> fst (snd (harvest_main crash_env [''solar''] demo_client)) = Inr ()
   \<and> fst (harvest_main (demo_env 0) [''solar''] demo_client) = [Inr ()]
   \<and> fst (snd (harvest_main (demo_env 0) [''solar''] demo_client)) = Inr ()"
  by (simp add: crash_env_def run_defs harvest_main_def EPOClient_init_def get_oauth_token_def
      oauth_receive_def oauth_exchange_def)

section \<open>An embedding that fails is not stored\<close>

lemma embed_try_calls:
  "embed_calls (snd (embed_try E abstract s)) =
     (case py_subscript abstract ''patentNumber'' of
        Inl e \<Rightarrow> embed_calls s
      | Inr pn \<Rightarrow> (case py_subscript abstract ''abstract'' of
                    Inl e \<Rightarrow> embed_calls s
                  | Inr input \<Rightarrow> embed_calls s @ [input]))"
  "vector_inserts (snd (embed_try E abstract s)) = vector_inserts s"
  by (simp_all add: embed_try_def Let_def split: sum.splits list.splits)

lemma embed_try_result:
  "fst (embed_try E abstract s) =
     (case py_subscript abstract ''patentNumber'' of
        Inl e \<Rightarrow> Inl e
      | Inr pn \<Rightarrow> (case py_subscript abstract ''abstract'' of
                    Inl e \<Rightarrow> Inl e
                  | Inr input \<Rightarrow>
                      (case embeddings_create E (length (embed_calls s)) of
                         Inl e \<Rightarrow> Inl e
                       | Inr [] \<Rightarrow> Inl IndexError
                       | Inr (embedding # rest) \<Rightarrow>
                           Inr \<lparr>emb_patentNumber = pn, emb_embedding = embedding\<rparr>)))"
  by (simp add: embed_try_def Let_def split: sum.splits list.splits)

lemma embed_abstract_result:
  "fst (embed_abstract E abstract s) =
     (case fst (embed_try E abstract s) of
        Inr r \<Rightarrow> Inr (Some r)
      | Inl e \<Rightarrow> (case py_subscript abstract ''patentNumber'' of
                    Inl e' \<Rightarrow> Inl e'
                  | Inr pn \<Rightarrow> Inr None))"
  "embed_calls (snd (embed_abstract E abstract s)) = embed_calls (snd (embed_try E abstract s))"
  "vector_inserts (snd (embed_abstract E abstract s)) = vector_inserts s"
proof -
  obtain r s1 where t: "embed_try E abstract s = (r, s1)" by (cases "embed_try E abstract s")
  have v: "vector_inserts s1 = vector_inserts s" using embed_try_calls(2) [of E abstract s] t by simp
  show "fst (embed_abstract E abstract s) =
     (case fst (embed_try E abstract s) of
        Inr r \<Rightarrow> Inr (Some r)
      | Inl e \<Rightarrow> (case py_subscript abstract ''patentNumber'' of
                    Inl e' \<Rightarrow> Inl e'
                  | Inr pn \<Rightarrow> Inr None))"
    "embed_calls (snd (embed_abstract E abstract s)) = embed_calls (snd (embed_try E abstract s))"
    "vector_inserts (snd (embed_abstract E abstract s)) = vector_inserts s"
    using t v by (simp_all add: embed_abstract_def split: sum.splits)
qed

lemma store_embedding_inserts:
  "vector_inserts (snd (store_embedding_in_cloudflare E r s)) =
     vector_inserts s @ [(emb_patentNumber r, emb_embedding r)]"
  by (simp add: store_embedding_in_cloudflare_def Let_def split: sum.splits)

lemma process_abstract_cases:
  "fst (process_abstract E abstract s) =
     (case fst (embed_abstract E abstract s) of Inl e \<Rightarrow> Inl e | Inr r \<Rightarrow> Inr ())"
  "vector_inserts (snd (process_abstract E abstract s)) =
     (case fst (embed_abstract E abstract s) of
        Inr (Some r) \<Rightarrow> vector_inserts s @ [(emb_patentNumber r, emb_embedding r)]
      | _ \<Rightarrow> vector_inserts s)"
proof -
  obtain r s1 where t: "embed_abstract E abstract s = (r, s1)"
    by (cases "embed_abstract E abstract s")
  have v: "vector_inserts s1 = vector_inserts s"
    using embed_abstract_result(3) [of E abstract s] t by simp
  show "fst (process_abstract E abstract s) =
     (case fst (embed_abstract E abstract s) of Inl e \<Rightarrow> Inl e | Inr r \<Rightarrow> Inr ())"
    "vector_inserts (snd (process_abstract E abstract s)) =
     (case fst (embed_abstract E abstract s) of
        Inr (Some r) \<Rightarrow> vector_inserts s @ [(emb_patentNumber r, emb_embedding r)]
      | _ \<Rightarrow> vector_inserts s)"
    using t v
    by (simp_all add: process_abstract_def store_embedding_inserts split: sum.splits option.splits)
qed

text \<open>
  Claim C10. For a record that has a patent number and an abstract, when the call of the
  embedding service raises (or its answer holds no embedding), \<^verbatim>\<open>embed_abstract\<close> returns
  \<^verbatim>\<open>None\<close> and raises nothing, and \<^verbatim>\<open>process_abstract\<close> returns without an insert into the
  vector index. A record with no patent number never reaches the embedding service.
  Whenever \<^verbatim>\<open>process_abstract\<close> does insert, \<^verbatim>\<open>embed_abstract\<close> had returned an embedding
  that the service computed, and the insert is of that patent number and that vector.
\<close>

theorem failed_embedding_is_not_stored:
  "(py_subscript abstract ''patentNumber'' = Inr pn
      \<and> py_subscript abstract ''abstract'' = Inr input
      \<and> (isl (embeddings_create E (length (embed_calls s)))
          \<or> embeddings_create E (length (embed_calls s)) = Inr []) \<longrightarrow>
        fst (embed_abstract E abstract s) = Inr None
      \<and> embed_calls (snd (embed_abstract E abstract s)) = embed_calls s @ [input]
      \<and> fst (process_abstract E abstract s) = Inr ()
      \<and> vector_inserts (snd (process_abstract E abstract s)) = vector_inserts s)
   \<and> (isl (py_subscript abstract ''patentNumber'') \<longrightarrow>
        embed_calls (snd (embed_abstract E abstract s)) = embed_calls s)
   \<and> (vector_inserts (snd (process_abstract E abstract s)) \<noteq> vector_inserts s \<longrightarrow>
        (\<exists>r rest. fst (embed_abstract E abstract s) = Inr (Some r)
           \<and> embeddings_create E (length (embed_calls s)) = Inr (emb_embedding r # rest)
           \<and> vector_inserts (snd (process_abstract E abstract s)) =
               vector_inserts s @ [(emb_patentNumber r, emb_embedding r)]))"
proof -
  have fails: "fst (embed_abstract E abstract s) = Inr None
      \<and> embed_calls (snd (embed_abstract E abstract s)) = embed_calls s @ [input]
      \<and> fst (process_abstract E abstract s) = Inr ()
      \<and> vector_inserts (snd (process_abstract E abstract s)) = vector_inserts s"
    if "py_subscript abstract ''patentNumber'' = Inr pn"
      "py_subscript abstract ''abstract'' = Inr input"
      "isl (embeddings_create E (length (embed_calls s)))
          \<or> embeddings_create E (length (embed_calls s)) = Inr []"
  proof -
    from that have "isl (fst (embed_try E abstract s))"
      by (auto simp add: embed_try_result split: sum.splits)
    then have none: "fst (embed_abstract E abstract s) = Inr None"
      using that(1) by (cases "fst (embed_try E abstract s)") (simp_all add: embed_abstract_result(1))
    then show ?thesis
      using that(1,2)
      by (simp add: process_abstract_cases embed_abstract_result(2) embed_try_calls(1))
  qed
  have nokey: "embed_calls (snd (embed_abstract E abstract s)) = embed_calls s"
    if "isl (py_subscript abstract ''patentNumber'')"
    using that
    by (cases "py_subscript abstract ''patentNumber''")
       (simp_all add: embed_abstract_result(2) embed_try_calls(1))
  have only: "\<exists>r rest. fst (embed_abstract E abstract s) = Inr (Some r)
           \<and> embeddings_create E (length (embed_calls s)) = Inr (emb_embedding r # rest)
           \<and> vector_inserts (snd (process_abstract E abstract s)) =
               vector_inserts s @ [(emb_patentNumber r, emb_embedding r)]"
    if "vector_inserts (snd (process_abstract E abstract s)) \<noteq> vector_inserts s"
  proof -
    from that obtain r where r: "fst (embed_abstract E abstract s) = Inr (Some r)"
      by (auto simp add: process_abstract_cases(2) split: sum.splits option.splits)
    then have t: "fst (embed_try E abstract s) = Inr r"
      by (auto simp add: embed_abstract_result(1) split: sum.splits)
    then obtain rest where
      "embeddings_create E (length (embed_calls s)) = Inr (emb_embedding r # rest)"
      by (auto simp add: embed_try_result split: sum.splits list.splits)
    with r show ?thesis by (simp add: process_abstract_cases(2))
  qed
  from fails nokey only show ?thesis by blast
qed

lemmas embed_defs = demo_abstract_def failing_embed_env_def working_embed_env_def
  empty_esys_def process_abstract_def embed_abstract_def embed_try_def
  store_embedding_in_cloudflare_def Let_def

theorem failed_embedding_is_not_stored_witness:
  "fst (embed_abstract failing_embed_env demo_abstract empty_esys) = Inr None
   \<and> embed_calls (snd (embed_abstract failing_embed_env demo_abstract empty_esys)) =
       [JStr ''A battery.'']
   \<and> vector_inserts (snd (process_abstract failing_embed_env demo_abstract empty_esys)) = []
   \<and> embed_calls (snd (embed_abstract failing_embed_env (JObj [(''abstract'', JStr ''A battery.'')])
                          empty_esys)) = []
   \<and> fst (embed_abstract working_embed_env demo_abstract empty_esys) =
       Inr (Some \<lparr>emb_patentNumber = JStr ''EP1A1'', emb_embedding = [1 / 2, 1 / 4]\<rparr>)
   \<and> vector_inserts (snd (process_abstract working_embed_env demo_abstract empty_esys)) =
       [(JStr ''EP1A1'', [1 / 2, 1 / 4])]"
proof -
  have ran: "vector_inserts (snd (process_abstract working_embed_env demo_abstract empty_esys)) =
       [(JStr ''EP1A1'', [1 / 2, 1 / 4])]"
    by (simp add: embed_defs)
  have "vector_inserts (snd (process_abstract working_embed_env demo_abstract empty_esys))
          \<noteq> vector_inserts empty_esys"
    unfolding ran by (simp add: empty_esys_def)
  with failed_embedding_is_not_stored
         [where E = working_embed_env and abstract = demo_abstract and s = empty_esys]
  obtain r where r: "fst (embed_abstract working_embed_env demo_abstract empty_esys) = Inr (Some r)"
    "vector_inserts (snd (process_abstract working_embed_env demo_abstract empty_esys)) =
               vector_inserts empty_esys @ [(emb_patentNumber r, emb_embedding r)]"
    by blast
  from r(2) ran have "emb_patentNumber r = JStr ''EP1A1''" "emb_embedding r = [1 / 2, 1 / 4]"
    by (simp_all add: empty_esys_def)
  then have "r = \<lparr>emb_patentNumber = JStr ''EP1A1'', emb_embedding = [1 / 2, 1 / 4]\<rparr>"
    by (cases r) simp
  with r(1) have ok: "fst (embed_abstract working_embed_env demo_abstract empty_esys) =
       Inr (Some \<lparr>emb_patentNumber = JStr ''EP1A1'', emb_embedding = [1 / 2, 1 / 4]\<rparr>)"
    by simp
  have hyp: "py_subscript demo_abstract ''patentNumber'' = Inr (JStr ''EP1A1'')"
    "py_subscript demo_abstract ''abstract'' = Inr (JStr ''A battery.'')"
    "isl (embeddings_create failing_embed_env (length (embed_calls empty_esys)))"
    "isl (py_subscript (JObj [(''abstract'', JStr ''A battery.'')]) ''patentNumber'')"
    by (simp_all add: demo_abstract_def failing_embed_env_def)
  from failed_embedding_is_not_stored
         [where E = failing_embed_env and abstract = demo_abstract and s = empty_esys
            and pn = "JStr ''EP1A1''" and input = "JStr ''A battery.''"]
       failed_embedding_is_not_stored
         [where E = failing_embed_env and abstract = "JObj [(''abstract'', JStr ''A battery.'')]"
            and s = empty_esys]
       hyp ok ran
  show ?thesis by (simp add: empty_esys_def)
qed

section \<open>The rate limiter\<close>




section \<open>Refreshes of several workers\<close>

lemma filter_update_length:
  "i < length xs \<Longrightarrow>
     length (filter P (xs[i := y])) + (if P (xs ! i) then 1 else 0) =
       length (filter P xs) + (if P y then 1 else 0)"
proof (induction xs arbitrary: i)
  case Nil
  then show ?case by simp
next
  case (Cons x xs)
  show ?case
  proof (cases i)
    case 0
    then show ?thesis by simp
  next
    case (Suc j)
    with Cons.prems have "j < length xs" by simp
    from Cons.IH [OF this] Suc show ?thesis by simp
  qed
qed

lemma oauth_receive_posts: "auth_posts (snd (oauth_receive E n s)) = auth_posts s"
  by (simp add: oauth_receive_def split: sum.splits)

lemma worker_step_length: "length (pcs (worker_step E i p)) = length (pcs p)"
  by (simp add: worker_step_def read_clock_def Let_def split: pc.splits prod.splits)

lemma worker_step_posts:
  "auth_posts (shared (worker_step E i p)) + at_check (worker_step E i p)
     \<le> auth_posts (shared p) + at_check p"
proof (cases "i < length (pcs p)")
  case False
  then show ?thesis by (simp add: worker_step_def)
next
  case True
  note upd = filter_update_length [OF True, of "\<lambda>c. c = AtCheck"]
  show ?thesis
  proof (cases "pcs p ! i")
    case AtCheck
    with True upd [of "InFlight (auth_posts (shared p))"] upd [of Finished] show ?thesis
      by (simp add: worker_step_def read_clock_def at_check_def)
  next
    case (InFlight n)
    obtain tok s1 where r: "oauth_receive E n (shared p) = (tok, s1)"
      by (cases "oauth_receive E n (shared p)")
    with oauth_receive_posts [of E n "shared p"] have "auth_posts s1 = auth_posts (shared p)"
      by simp
    with True InFlight r upd [of AtHeader] show ?thesis
      by (simp add: worker_step_def at_check_def)
  next
    case AtHeader
    with True upd [of AtStamp] show ?thesis by (simp add: worker_step_def at_check_def)
  next
    case AtStamp
    with True upd [of Finished] show ?thesis
      by (simp add: worker_step_def read_clock_def at_check_def)
  next
    case Finished
    with True show ?thesis by (simp add: worker_step_def)
  qed
qed

lemma run_schedule_length: "length (pcs (run_schedule E sched p)) = length (pcs p)"
  by (induction sched arbitrary: p) (simp_all add: worker_step_length)

lemma run_schedule_posts:
  "auth_posts (shared (run_schedule E sched p)) + at_check (run_schedule E sched p)
     \<le> auth_posts (shared p) + at_check p"
proof (induction sched arbitrary: p)
  case Nil
  show ?case by simp
next
  case (Cons i sched)
  from Cons.IH [of "worker_step E i p"] worker_step_posts [of E i p] show ?case by simp
qed

lemma step_AtCheck:
  "i < length (pcs p) \<Longrightarrow> pcs p ! i = AtCheck \<Longrightarrow>
   worker_step E i p =
     (let s1 = (shared p)\<lparr>clock_reads := Suc (clock_reads (shared p))\<rparr>
      in if time_at E (clock_reads (shared p)) - token_acquired_time (shared p)
              \<ge> token_valid_for (shared p) - 60
         then p\<lparr>shared := s1\<lparr>auth_posts := Suc (auth_posts s1)\<rparr>,
                pcs := (pcs p)[i := InFlight (auth_posts s1)]\<rparr>
         else p\<lparr>shared := s1, pcs := (pcs p)[i := Finished]\<rparr>)"
  by (simp add: worker_step_def read_clock_def Let_def)

lemma step_InFlight:
  "i < length (pcs p) \<Longrightarrow> pcs p ! i = InFlight n \<Longrightarrow>
   worker_step E i p =
     p\<lparr>shared := (snd (oauth_receive E n (shared p)))\<lparr>token := fst (oauth_receive E n (shared p))\<rparr>,
       pcs := (pcs p)[i := AtHeader]\<rparr>"
  by (simp add: worker_step_def Let_def split: prod.splits)

lemma step_AtHeader:
  "i < length (pcs p) \<Longrightarrow> pcs p ! i = AtHeader \<Longrightarrow>
   worker_step E i p =
     p\<lparr>shared := (shared p)\<lparr>authorization :=
                                       ''Bearer '' @ format_value E (token (shared p))\<rparr>,
       pcs := (pcs p)[i := AtStamp]\<rparr>"
  by (simp add: worker_step_def)

lemma step_AtStamp:
  "i < length (pcs p) \<Longrightarrow> pcs p ! i = AtStamp \<Longrightarrow>
   worker_step E i p =
     p\<lparr>shared := (shared p)\<lparr>clock_reads := Suc (clock_reads (shared p)),
                              token_acquired_time := time_at E (clock_reads (shared p))\<rparr>,
       pcs := (pcs p)[i := Finished]\<rparr>"
  by (simp add: worker_step_def read_clock_def Let_def)

lemma step_Finished:
  "i < length (pcs p) \<Longrightarrow> pcs p ! i = Finished \<Longrightarrow> worker_step E i p = p"
  by (simp add: worker_step_def)

lemmas step_simps = step_AtCheck step_InFlight step_AtHeader step_AtStamp step_Finished

lemma one_worker_is_ensure_token:
  "run_schedule E [0, 0, 0, 0] \<lparr>shared = s, pcs = [AtCheck]\<rparr> =
     \<lparr>shared = ensure_token E s, pcs = [Finished]\<rparr>"
proof (cases "time_at E (clock_reads s) - token_acquired_time s \<ge> token_valid_for s - 60")
  case True
  then show ?thesis
    by (simp add: step_simps ensure_token_def read_clock_def get_oauth_token_def Let_def
        split: prod.splits)
next
  case False
  then show ?thesis
    by (simp add: step_simps ensure_token_def read_clock_def Let_def)
qed

lemma workers_at_check_all_send:
  assumes "pcs p = map InFlight ns @ replicate m AtCheck"
    and "\<forall>k<m. time_at E (clock_reads (shared p) + k) - token_acquired_time (shared p)
                  \<ge> token_valid_for (shared p) - 60"
  shows "pcs (run_schedule E [length ns ..< length ns + m] p) =
           map InFlight (ns @ [auth_posts (shared p) ..< auth_posts (shared p) + m])
       \<and> auth_posts (shared (run_schedule E [length ns ..< length ns + m] p)) =
           auth_posts (shared p) + m"
  using assms
proof (induction m arbitrary: p ns)
  case 0
  then show ?case by simp
next
  case (Suc m)
  let ?i = "length ns"
  let ?s = "shared p"
  let ?p' = "worker_step E ?i p"
  have i: "?i < length (pcs p)" "pcs p ! ?i = AtCheck"
    using Suc.prems(1) by (simp_all add: nth_append)
  have due: "time_at E (clock_reads ?s) - token_acquired_time ?s \<ge> token_valid_for ?s - 60"
    using Suc.prems(2) by (metis add.right_neutral zero_less_Suc)
  have step: "?p' = p\<lparr>shared := ?s\<lparr>clock_reads := Suc (clock_reads ?s),
                                     auth_posts := Suc (auth_posts ?s)\<rparr>,
                      pcs := (pcs p)[?i := InFlight (auth_posts ?s)]\<rparr>"
    using due by (simp add: step_AtCheck [OF i] Let_def)
  have pcs': "pcs ?p' = map InFlight (ns @ [auth_posts ?s]) @ replicate m AtCheck"
    unfolding step using Suc.prems(1) by (simp add: list_update_append)
  have due': "\<forall>k<m. time_at E (clock_reads (shared ?p') + k) - token_acquired_time (shared ?p')
                  \<ge> token_valid_for (shared ?p') - 60"
  proof (intro allI impI)
    fix k assume "k < m"
    then have "Suc k < Suc m" by simp
    with Suc.prems(2) have "time_at E (clock_reads ?s + Suc k) - token_acquired_time ?s
                  \<ge> token_valid_for ?s - 60" by blast
    then show "time_at E (clock_reads (shared ?p') + k) - token_acquired_time (shared ?p')
                  \<ge> token_valid_for (shared ?p') - 60"
      unfolding step by simp
  qed
  have sched: "[?i ..< ?i + Suc m] = ?i # [length (ns @ [auth_posts ?s]) ..< length (ns @ [auth_posts ?s]) + m]"
    by (simp add: upt_conv_Cons)
  have posts': "auth_posts (shared ?p') = Suc (auth_posts ?s)" unfolding step by simp
  from Suc.IH [OF pcs' due'] show ?case
    unfolding sched run_schedule.simps posts'
    by (simp add: upt_conv_Cons)
qed

lemma worker_at_check_sends:
  assumes "i < length (pcs p)" and "pcs p ! i = AtCheck"
    and "time_at E (clock_reads (shared p)) - token_acquired_time (shared p)
           \<ge> token_valid_for (shared p) - 60"
  shows "pcs (worker_step E i p) = (pcs p)[i := InFlight (auth_posts (shared p))]"
    and "auth_posts (shared (worker_step E i p)) = Suc (auth_posts (shared p))"
    and "in_flight (worker_step E i p) = Suc (in_flight p)"
proof -
  show a: "pcs (worker_step E i p) = (pcs p)[i := InFlight (auth_posts (shared p))]"
    and "auth_posts (shared (worker_step E i p)) = Suc (auth_posts (shared p))"
    using assms(3) by (simp_all add: step_AtCheck [OF assms(1,2)] Let_def)
  from filter_update_length [OF assms(1), of is_in_flight "InFlight (auth_posts (shared p))"]
    assms(2)
  show "in_flight (worker_step E i p) = Suc (in_flight p)"
    unfolding in_flight_def a by simp
qed

text \<open>
  Claim C3, as amended. \<^verbatim>\<open>ensure_token\<close> takes no lock and nothing coalesces the
  refreshes: a worker at the test of line 74 that finds the token due sends its own
  request to the OAuth endpoint, whatever the other workers are doing, and the requests
  in flight grow by one. So when k workers enter the method and each finds the token due,
  k requests are in flight at the same time and k calls have been made. A call of
  \<^verbatim>\<open>ensure_token\<close> sends at most one request: under every schedule the requests in
  flight are at most as many as the workers, and the requests sent at most as many as the
  workers that entered the method. A worker that runs the method alone does what
  \<^verbatim>\<open>ensure_token\<close> does, with at most one request.
\<close>

theorem refreshes_are_not_coalesced:
  "(i < length (pcs p) \<and> pcs p ! i = AtCheck
      \<and> time_at E (clock_reads (shared p)) - token_acquired_time (shared p)
           \<ge> token_valid_for (shared p) - 60 \<longrightarrow>
        pcs (worker_step E i p) = (pcs p)[i := InFlight (auth_posts (shared p))]
      \<and> auth_posts (shared (worker_step E i p)) = Suc (auth_posts (shared p))
      \<and> in_flight (worker_step E i p) = Suc (in_flight p))
   \<and> ((\<forall>c\<in>set (pcs p). c = AtCheck)
      \<and> (\<forall>k<length (pcs p). time_at E (clock_reads (shared p) + k)
                                  - token_acquired_time (shared p)
                                \<ge> token_valid_for (shared p) - 60) \<longrightarrow>
        in_flight (run_schedule E [0 ..< length (pcs p)] p) = length (pcs p)
      \<and> auth_posts (shared (run_schedule E [0 ..< length (pcs p)] p)) =
          auth_posts (shared p) + length (pcs p))
   \<and> in_flight (run_schedule E sched p) \<le> length (pcs p)
   \<and> auth_posts (shared (run_schedule E sched p)) \<le> auth_posts (shared p) + at_check p
   \<and> run_schedule E [0, 0, 0, 0] \<lparr>shared = s, pcs = [AtCheck]\<rparr> =
       \<lparr>shared = ensure_token E s, pcs = [Finished]\<rparr>
   \<and> auth_posts (ensure_token E s) \<le> auth_posts s + 1"
proof -
  have all: "in_flight (run_schedule E [0 ..< length (pcs p)] p) = length (pcs p)
      \<and> auth_posts (shared (run_schedule E [0 ..< length (pcs p)] p)) =
          auth_posts (shared p) + length (pcs p)"
    if h: "\<forall>c\<in>set (pcs p). c = AtCheck"
      "\<forall>k<length (pcs p). time_at E (clock_reads (shared p) + k)
                                  - token_acquired_time (shared p)
                                \<ge> token_valid_for (shared p) - 60"
  proof -
    from h(1) have "pcs p = map InFlight [] @ replicate (length (pcs p)) AtCheck"
      by (simp add: replicate_length_same)
    from workers_at_check_all_send [OF this h(2)] show ?thesis
      by (simp add: in_flight_def)
  qed
  have "in_flight (run_schedule E sched p) \<le> length (pcs (run_schedule E sched p))"
    by (simp add: in_flight_def)
  then have a: "in_flight (run_schedule E sched p) \<le> length (pcs p)"
    by (simp add: run_schedule_length)
  have b: "auth_posts (shared (run_schedule E sched p)) \<le> auth_posts (shared p) + at_check p"
    using run_schedule_posts [of E sched p] by simp
  have d: "auth_posts (ensure_token E s) \<le> auth_posts s + 1"
    using run_schedule_posts [of E "[0, 0, 0, 0]" "\<lparr>shared = s, pcs = [AtCheck]\<rparr>"]
    unfolding one_worker_is_ensure_token by (simp add: at_check_def)
  from all a b d one_worker_is_ensure_token [of E s] worker_at_check_sends [of i p E]
  show ?thesis by blast
qed

theorem refreshes_are_not_coalesced_witness:
  "in_flight (worker_step (demo_env 1145) 1 (worker_step (demo_env 1145) 0 two_workers)) =
     Suc (in_flight (worker_step (demo_env 1145) 0 two_workers))
   \<and> in_flight (run_schedule (demo_env 1145) [0 ..< 2] two_workers) = 2
   \<and> auth_posts (shared (run_schedule (demo_env 1145) [0 ..< 2] two_workers)) =
       auth_posts demo_client + 2"
proof -
  have first: "worker_step (demo_env 1145) 0 two_workers =
     \<lparr>shared = demo_client\<lparr>clock_reads := 1, auth_posts := 2\<rparr>, pcs = [InFlight 1, AtCheck]\<rparr>"
    by (simp add: two_workers_def demo_env_def demo_client_def step_simps)
  have hyp1: "1 < length (pcs (worker_step (demo_env 1145) 0 two_workers))
      \<and> pcs (worker_step (demo_env 1145) 0 two_workers) ! 1 = AtCheck
      \<and> time_at (demo_env 1145) (clock_reads (shared (worker_step (demo_env 1145) 0 two_workers)))
           - token_acquired_time (shared (worker_step (demo_env 1145) 0 two_workers))
           \<ge> token_valid_for (shared (worker_step (demo_env 1145) 0 two_workers)) - 60"
    unfolding first by (simp add: demo_env_def demo_client_def)
  have hyp2: "(\<forall>c\<in>set (pcs two_workers). c = AtCheck)
      \<and> (\<forall>k<length (pcs two_workers). time_at (demo_env 1145) (clock_reads (shared two_workers) + k)
                                  - token_acquired_time (shared two_workers)
                                \<ge> token_valid_for (shared two_workers) - 60)"
    by (simp add: two_workers_def demo_env_def demo_client_def)
  have len: "length (pcs two_workers) = 2" "shared two_workers = demo_client"
    by (simp_all add: two_workers_def)
  from refreshes_are_not_coalesced
         [where E = "demo_env 1145" and i = 1 and p = "worker_step (demo_env 1145) 0 two_workers"
            and sched = "[]" and s = demo_client] hyp1
  have one: "in_flight (worker_step (demo_env 1145) 1 (worker_step (demo_env 1145) 0 two_workers)) =
     Suc (in_flight (worker_step (demo_env 1145) 0 two_workers))" by blast
  from refreshes_are_not_coalesced
         [where E = "demo_env 1145" and i = 0 and p = two_workers
            and sched = "[]" and s = demo_client] hyp2
  have two: "in_flight (run_schedule (demo_env 1145) [0 ..< length (pcs two_workers)] two_workers) =
               length (pcs two_workers)
      \<and> auth_posts (shared (run_schedule (demo_env 1145) [0 ..< length (pcs two_workers)] two_workers)) =
          auth_posts (shared two_workers) + length (pcs two_workers)" by blast
  from one two show ?thesis unfolding len by simp
qed

text \<open>
  Claim C3 as the specification states it (at most one refresh request in flight at any
  time) fails with two workers and a token that is due: the first worker tests and sends
  its request; before the answer comes the second worker tests, finds the same old
  acquisition time, and sends a second request.
\<close>

lemma two_in_flight:
  "run_schedule (demo_env 1145) [0, 1] two_workers =
     \<lparr>shared = demo_client\<lparr>clock_reads := 2, auth_posts := 3\<rparr>, pcs = [InFlight 1, InFlight 2]\<rparr>"
  by (simp add: two_workers_def demo_env_def demo_client_def step_simps)

theorem single_refresh_in_flight_counterexample:
  "pcs (run_schedule (demo_env 1145) [0, 1] two_workers) = [InFlight 1, InFlight 2]
   \<and> in_flight (run_schedule (demo_env 1145) [0, 1] two_workers) = 2
   \<and> auth_posts (shared (run_schedule (demo_env 1145) [0, 1] two_workers)) =
       auth_posts demo_client + 2"
  unfolding two_in_flight by (simp add: in_flight_def demo_client_def)

end
